theory Spec2Isabelle
  imports Complex_Main "HOL-Library.Multiset" "HOL-Library.Char_ord" "HOL-Library.List_Lexorder"
begin

section \<open>The EMS response-time pipeline of \<^verbatim>\<open>ems_analytics.py\<close>\<close>

text \<open>
  The script is one straight-line pandas computation. Each data frame becomes a list of
  records (one per row, in row order), each pandas operation the script calls becomes a
  function on such lists. A float64 value is modelled by the real number it denotes, and the
  floating-point NaN ("absent") of a column by \<open>None\<close>; arithmetic is exact, so rounding error
  and overflow are outside the model. Response times are finite numbers, as in the data
  model of the script's input (seconds, not negative).
\<close>

subsection \<open>Module 1: loading and cleaning\<close>

text \<open>A cell of the loaded CSV frame: empty, already numeric, or text.\<close>

datatype cell = Null | Number real | Text string

record raw_incident =
  raw_borough :: "string option"
  raw_dispatch_response_seconds_qy :: cell
  raw_incident_response_seconds_qy :: cell

text \<open>
  \<^verbatim>\<open>pd.to_numeric(column, errors='coerce')\<close>, cell by cell. The text parser of pandas is the
  parameter \<open>parse\<close>; where it fails, \<^verbatim>\<open>errors='coerce'\<close> stores NaN instead of raising.
  The parser gives finite numbers only: text that pandas reads as a float infinity
  (\<^verbatim>\<open>'inf'\<close>, \<^verbatim>\<open>'1e999'\<close>) is not a response time and has no counterpart here.
\<close>

definition to_numeric :: "(string \<Rightarrow> real option) \<Rightarrow> cell \<Rightarrow> real option" where
  "to_numeric parse c = (case c of Null \<Rightarrow> None | Number x \<Rightarrow> Some x | Text s \<Rightarrow> parse s)"

record working_incident =
  w_borough :: "string option"
  w_dispatch_response_seconds_qy :: "real option"
  w_incident_response_seconds_qy :: "real option"

text \<open>Lines 20-21: both response-time columns of the working copy are coerced.\<close>

definition working_dataset :: "(string \<Rightarrow> real option) \<Rightarrow> raw_incident list \<Rightarrow> working_incident list" where
  "working_dataset parse raw_ems_data =
     map (\<lambda>r. \<lparr>w_borough = raw_borough r,
               w_dispatch_response_seconds_qy = to_numeric parse (raw_dispatch_response_seconds_qy r),
               w_incident_response_seconds_qy = to_numeric parse (raw_incident_response_seconds_qy r)\<rparr>)
         raw_ems_data"

text \<open>
  A row of \<^verbatim>\<open>clean_dataset\<close>: after \<^verbatim>\<open>dropna(subset=[dispatch, borough])\<close> these two
  columns hold a value in every row; the incident response time may still be NaN.
\<close>

record incident =
  borough :: string
  dispatch_response_seconds_qy :: real
  incident_response_seconds_qy :: "real option"

definition dropna :: "working_incident \<Rightarrow> incident option" where
  "dropna w =
     (case (w_dispatch_response_seconds_qy w, w_borough w) of
        (Some d, Some b) \<Rightarrow>
          Some \<lparr>borough = b, dispatch_response_seconds_qy = d,
                incident_response_seconds_qy = w_incident_response_seconds_qy w\<rparr>
      | _ \<Rightarrow> None)"

definition clean_dataset :: "working_incident list \<Rightarrow> incident list" where
  "clean_dataset working = List.map_filter dropna working"

subsection \<open>Module 2: grouped statistics\<close>

text \<open>
  \<^verbatim>\<open>groupby('borough')\<close>: one group per distinct key, keys in sorted order, the rows of a
  group in their original order.
\<close>

definition groupby_borough :: "incident list \<Rightarrow> (string \<times> incident list) list" where
  "groupby_borough df =
     map (\<lambda>b. (b, filter (\<lambda>r. borough r = b) df)) (sort (remdups (map borough df)))"

text \<open>Reductions of a float column skip NaN; on no value at all they give NaN.\<close>

definition dropna_values :: "real option list \<Rightarrow> real list" where
  "dropna_values col = List.map_filter id col"

definition mean :: "real list \<Rightarrow> real option" where
  "mean xs = (if xs = [] then None else Some (sum_list xs / real (length xs)))"

definition median :: "real list \<Rightarrow> real option" where
  "median xs =
     (let s = sort xs; n = length s in
      if n = 0 then None
      else if odd n then Some (s ! (n div 2))
      else Some ((s ! (n div 2 - 1) + s ! (n div 2)) / 2))"

text \<open>The sample standard deviation (\<^verbatim>\<open>ddof=1\<close>): NaN for fewer than two values.\<close>

definition std :: "real list \<Rightarrow> real option" where
  "std xs =
     (if length xs < 2 then None
      else let m = sum_list xs / real (length xs) in
        Some (sqrt (sum_list (map (\<lambda>x. (x - m)\<^sup>2) xs) / real (length xs - 1))))"

text \<open>
  \<^verbatim>\<open>.round(k)\<close>: numpy rounds to the nearest multiple of \<open>10\<^sup>-\<^sup>k\<close>, a tie to the even
  neighbour; NaN stays NaN. The definition rounds the exact number. The script rounds the
  float64 value next to it, so the two can differ by one unit of the last kept decimal
  where the exact number is a decimal tie that float64 does not represent (1.015 is stored
  by the script as 1.01). The property of the speed score below is therefore stated for any
  stored means.
\<close>

definition round_half_even :: "real \<Rightarrow> int" where
  "round_half_even x =
     (let f = \<lfloor>x\<rfloor>; d = x - of_int f in
      if d < 1 / 2 then f else if 1 / 2 < d then f + 1 else if even f then f else f + 1)"

definition np_round :: "nat \<Rightarrow> real \<Rightarrow> real" where
  "np_round k x = of_int (round_half_even (x * 10 ^ k)) / 10 ^ k"

definition round_col :: "nat \<Rightarrow> real option \<Rightarrow> real option" where
  "round_col k v = map_option (np_round k) v"

record borough_stats_row =
  bs_borough :: string
  bs_avg_dispatch_sec :: "real option"
  bs_median_dispatch_sec :: "real option"
  bs_std_dispatch :: "real option"
  bs_total_calls :: nat
  bs_avg_incident_sec :: "real option"
  bs_median_incident :: "real option"

text \<open>
  Lines 45-53. \<^verbatim>\<open>count\<close> counts the non-NaN dispatch values of the group, which after
  cleaning are all its rows; the incident column is reduced over its non-NaN values.
\<close>

definition borough_stats :: "incident list \<Rightarrow> borough_stats_row list" where
  "borough_stats clean =
     map (\<lambda>(b, x).
            let d = map dispatch_response_seconds_qy x;
                i = dropna_values (map incident_response_seconds_qy x) in
            \<lparr>bs_borough = b,
             bs_avg_dispatch_sec = round_col 2 (mean d),
             bs_median_dispatch_sec = round_col 2 (median d),
             bs_std_dispatch = round_col 2 (std d),
             bs_total_calls = length d,
             bs_avg_incident_sec = round_col 2 (mean i),
             bs_median_incident = round_col 2 (median i)\<rparr>)
         (groupby_borough clean)"

record performance_metrics_row =
  pm_borough :: string
  pm_meets_5min :: "real option"
  pm_meets_8min :: "real option"
  pm_extreme_delays :: nat

text \<open>The mean of a boolean column is the share of its true entries.\<close>

definition bool_mean :: "bool list \<Rightarrow> real option" where
  "bool_mean bs = mean (map (\<lambda>b. if b then 1 else 0) bs)"

definition bool_sum :: "bool list \<Rightarrow> nat" where
  "bool_sum bs = length (filter id bs)"

definition times100 :: "real option \<Rightarrow> real option" where
  "times100 v = map_option (\<lambda>x. x * 100) v"

text \<open>Lines 56-63.\<close>

definition performance_metrics :: "incident list \<Rightarrow> performance_metrics_row list" where
  "performance_metrics clean =
     map (\<lambda>(b, x).
            let d = map dispatch_response_seconds_qy x in
            \<lparr>pm_borough = b,
             pm_meets_5min = round_col 2 (times100 (bool_mean (map (\<lambda>v. v \<le> 300) d))),
             pm_meets_8min = round_col 2 (times100 (bool_mean (map (\<lambda>v. v \<le> 480) d))),
             pm_extreme_delays = bool_sum (map (\<lambda>v. 600 < v) d)\<rparr>)
         (groupby_borough clean)"

record master_row =
  m_borough :: string
  avg_dispatch_sec :: "real option"
  median_dispatch_sec :: "real option"
  std_dispatch :: "real option"
  total_calls :: nat
  avg_incident_sec :: "real option"
  median_incident :: "real option"
  meets_5min :: "real option"
  meets_8min :: "real option"
  extreme_delays :: nat

text \<open>Line 65: the inner join of the two tables on \<^verbatim>\<open>borough\<close>.\<close>

definition merge_row :: "borough_stats_row \<Rightarrow> performance_metrics_row \<Rightarrow> master_row" where
  "merge_row s p =
     \<lparr>m_borough = bs_borough s,
      avg_dispatch_sec = bs_avg_dispatch_sec s,
      median_dispatch_sec = bs_median_dispatch_sec s,
      std_dispatch = bs_std_dispatch s,
      total_calls = bs_total_calls s,
      avg_incident_sec = bs_avg_incident_sec s,
      median_incident = bs_median_incident s,
      meets_5min = pm_meets_5min p,
      meets_8min = pm_meets_8min p,
      extreme_delays = pm_extreme_delays p\<rparr>"

definition merge_on_borough ::
  "borough_stats_row list \<Rightarrow> performance_metrics_row list \<Rightarrow> master_row list" where
  "merge_on_borough left right =
     concat (map (\<lambda>s. map (merge_row s) (filter (\<lambda>p. pm_borough p = bs_borough s) right)) left)"

definition master_data :: "incident list \<Rightarrow> master_row list" where
  "master_data clean = merge_on_borough (borough_stats clean) (performance_metrics clean)"

subsection \<open>Performance buckets\<close>

datatype perf_label = Excellent | Good | Poor | Critical

definition label_text :: "perf_label \<Rightarrow> string" where
  "label_text l =
     (case l of Excellent \<Rightarrow> ''Excellent (<5min)'' | Good \<Rightarrow> ''Good (5-8min)''
      | Poor \<Rightarrow> ''Poor (8-10min)'' | Critical \<Rightarrow> ''Critical (>10min)'')"

text \<open>
  Lines 68-70: \<^verbatim>\<open>pd.cut\<close> with bins \<open>[0, 300, 480, 600, inf]\<close> and its defaults
  \<^verbatim>\<open>right=True\<close>, \<^verbatim>\<open>include_lowest=False\<close>: the intervals are \<open>(0, 300]\<close>, \<open>(300, 480]\<close>,
  \<open>(480, 600]\<close>, \<open>(600, inf]\<close>, and a value in none of them gets NaN.
\<close>

definition cut :: "real \<Rightarrow> perf_label option" where
  "cut v =
     (if 0 < v \<and> v \<le> 300 then Some Excellent
      else if 300 < v \<and> v \<le> 480 then Some Good
      else if 480 < v \<and> v \<le> 600 then Some Poor
      else if 600 < v then Some Critical
      else None)"

definition perf_bucket :: "incident \<Rightarrow> perf_label option" where
  "perf_bucket r = cut (dispatch_response_seconds_qy r)"

definition categories :: "perf_label list" where
  "categories = [Excellent, Good, Poor, Critical]"

text \<open>
  \<^verbatim>\<open>value_counts()\<close> of a categorical column: one row per category (also the unused
  ones), NaN entries not counted, rows by falling count. Rows with equal counts are kept in
  category order here; pandas leaves their order open, and nothing below but the literal
  table of one example depends on it.
\<close>

definition value_counts :: "perf_label option list \<Rightarrow> (perf_label \<times> nat) list" where
  "value_counts col =
     sort_key (\<lambda>(l, c). - int c) (map (\<lambda>l. (l, count_list col (Some l))) categories)"

definition bucket_counts :: "incident list \<Rightarrow> (perf_label \<times> nat) list" where
  "bucket_counts clean = value_counts (map perf_bucket clean)"

text \<open>Lines 76-79: the citywide figures of the summary table.\<close>

definition overall_8min_rate :: "incident list \<Rightarrow> real option" where
  "overall_8min_rate clean =
     times100 (bool_mean (map (\<lambda>v. v \<le> 480) (map dispatch_response_seconds_qy clean)))"

definition citywide_extreme_delays :: "incident list \<Rightarrow> nat" where
  "citywide_extreme_delays clean =
     bool_sum (map (\<lambda>v. 600 < v) (map dispatch_response_seconds_qy clean))"

subsection \<open>Best, worst and busiest borough\<close>

datatype error = EmptySequence | AllNaN | NoSuchRow | KeyError string

text \<open>
  \<^verbatim>\<open>master_data['meets_8min']\<close>. The columns \<^verbatim>\<open>meets_5min\<close>, \<^verbatim>\<open>meets_8min\<close> and
  \<^verbatim>\<open>extreme_delays\<close> are made by the function handed to \<^verbatim>\<open>groupby(...).apply\<close>. When there
  is no group the function is never called, the result of \<^verbatim>\<open>apply\<close> and so the merged
  table have no such columns, and selecting one raises \<^verbatim>\<open>KeyError\<close>.
\<close>

definition metric_column ::
  "incident list \<Rightarrow> string \<Rightarrow> (master_row \<Rightarrow> 'a) \<Rightarrow> master_row list \<Rightarrow> error + 'a list" where
  "metric_column clean name f master =
     (if groupby_borough clean = [] then Inl (KeyError name) else Inr (map f master))"

text \<open>
  \<^verbatim>\<open>column.idxmax()\<close> followed by \<^verbatim>\<open>master_data.loc[...]\<close> (lines 90-92). On a column
  without rows \<^verbatim>\<open>idxmax\<close> raises ("attempt to get argmax of an empty sequence"); NaN
  entries are skipped and a column of NaN only has no row to select. Otherwise the row label
  is the position of the first largest entry.
\<close>

fun argbest_from :: "(real \<Rightarrow> real \<Rightarrow> bool) \<Rightarrow> nat \<Rightarrow> real \<Rightarrow> nat \<Rightarrow> real option list \<Rightarrow> nat" where
  "argbest_from better bi bv i [] = bi"
| "argbest_from better bi bv i (None # col) = argbest_from better bi bv (Suc i) col"
| "argbest_from better bi bv i (Some v # col) =
     (if better v bv then argbest_from better i v (Suc i) col
      else argbest_from better bi bv (Suc i) col)"

fun argbest :: "(real \<Rightarrow> real \<Rightarrow> bool) \<Rightarrow> nat \<Rightarrow> real option list \<Rightarrow> error + nat" where
  "argbest better i [] = Inl AllNaN"
| "argbest better i (None # col) = argbest better (Suc i) col"
| "argbest better i (Some v # col) = Inr (argbest_from better i v (Suc i) col)"

definition idxmax :: "real option list \<Rightarrow> error + nat" where
  "idxmax col = (if col = [] then Inl EmptySequence else argbest (\<lambda>v bv. bv < v) 0 col)"

definition idxmin :: "real option list \<Rightarrow> error + nat" where
  "idxmin col = (if col = [] then Inl EmptySequence else argbest (\<lambda>v bv. v < bv) 0 col)"

definition loc :: "'a list \<Rightarrow> nat \<Rightarrow> error + 'a" where
  "loc df i = (if i < length df then Inr (df ! i) else Inl NoSuchRow)"

definition float_col :: "nat list \<Rightarrow> real option list" where
  "float_col col = map (\<lambda>n. Some (real n)) col"

subsection \<open>Module 5: the per-borough bucket shares\<close>

text \<open>
  Lines 191-192: \<^verbatim>\<open>pd.crosstab(borough, perf_bucket, normalize='index') * 100\<close>, rounded to
  one decimal. Rows whose bucket is NaN are left out before counting, a label without any
  row gets no column, and every row of the table is divided by its own sum.
\<close>

definition normalize_index :: "nat list \<Rightarrow> real option list" where
  "normalize_index counts =
     map (\<lambda>c. if sum_list counts = 0 then None else Some (real c / real (sum_list counts))) counts"

definition perf_by_borough :: "incident list \<Rightarrow> (string \<times> (perf_label \<times> real option) list) list" where
  "perf_by_borough clean =
     (let rows = filter (\<lambda>r. perf_bucket r \<noteq> None) clean;
          cols = filter (\<lambda>l. Some l \<in> set (map perf_bucket rows)) categories
      in map (\<lambda>(b, x).
                (b, zip cols
                      (map (\<lambda>v. round_col 1 (times100 v))
                         (normalize_index (map (\<lambda>l. count_list (map perf_bucket x) (Some l)) cols)))))
             (groupby_borough rows))"

subsection \<open>Module 6: radar scores\<close>

text \<open>
  The scores are computed on numpy floats, where a division by zero does not raise: it
  gives NaN for \<open>0 / 0\<close> and an infinity otherwise. Only the results of this arithmetic can be
  infinite, so the infinities appear in this type alone. There is no negative zero in the
  model: a zero divisor counts as positive.
\<close>

datatype npfloat = Fin real | PosInf | NegInf | NaN

definition of_float :: "real option \<Rightarrow> npfloat" where
  "of_float v = (case v of None \<Rightarrow> NaN | Some x \<Rightarrow> Fin x)"

fun np_neg :: "npfloat \<Rightarrow> npfloat" where
  "np_neg (Fin a) = Fin (- a)"
| "np_neg PosInf = NegInf"
| "np_neg NegInf = PosInf"
| "np_neg NaN = NaN"

fun np_add :: "npfloat \<Rightarrow> npfloat \<Rightarrow> npfloat" where
  "np_add NaN _ = NaN"
| "np_add _ NaN = NaN"
| "np_add (Fin a) (Fin b) = Fin (a + b)"
| "np_add PosInf NegInf = NaN"
| "np_add NegInf PosInf = NaN"
| "np_add PosInf _ = PosInf"
| "np_add NegInf _ = NegInf"
| "np_add (Fin a) b = b"

definition np_sub :: "npfloat \<Rightarrow> npfloat \<Rightarrow> npfloat" where
  "np_sub a b = np_add a (np_neg b)"

definition np_sign :: "npfloat \<Rightarrow> int" where
  "np_sign a = (case a of Fin x \<Rightarrow> (if x < 0 then - 1 else if x = 0 then 0 else 1)
                | PosInf \<Rightarrow> 1 | NegInf \<Rightarrow> - 1 | NaN \<Rightarrow> 0)"

definition signed_inf :: "int \<Rightarrow> npfloat" where
  "signed_inf s = (if s = 0 then NaN else if 0 < s then PosInf else NegInf)"

fun np_mul :: "npfloat \<Rightarrow> npfloat \<Rightarrow> npfloat" where
  "np_mul NaN _ = NaN"
| "np_mul _ NaN = NaN"
| "np_mul (Fin a) (Fin b) = Fin (a * b)"
| "np_mul a b = signed_inf (np_sign a * np_sign b)"

fun np_div :: "npfloat \<Rightarrow> npfloat \<Rightarrow> npfloat" where
  "np_div NaN _ = NaN"
| "np_div _ NaN = NaN"
| "np_div (Fin a) (Fin b) = (if b = 0 then signed_inf (np_sign (Fin a)) else Fin (a / b))"
| "np_div (Fin a) _ = Fin 0"
| "np_div a (Fin b) = signed_inf (np_sign a * (if b < 0 then - 1 else 1))"
| "np_div _ _ = NaN"

definition np_positive :: "npfloat \<Rightarrow> bool" where
  "np_positive a = (case a of Fin x \<Rightarrow> 0 < x | PosInf \<Rightarrow> True | _ \<Rightarrow> False)"

text \<open>\<^verbatim>\<open>column.min()\<close> and \<^verbatim>\<open>column.max()\<close> skip NaN and give NaN on no value.\<close>

definition col_min :: "real option list \<Rightarrow> real option" where
  "col_min col = (case dropna_values col of [] \<Rightarrow> None | v # vs \<Rightarrow> Some (fold min vs v))"

definition col_max :: "real option list \<Rightarrow> real option" where
  "col_max col = (case dropna_values col of [] \<Rightarrow> None | v # vs \<Rightarrow> Some (fold max vs v))"

text \<open>Lines 255-256.\<close>

definition speed_score :: "master_row list \<Rightarrow> master_row \<Rightarrow> npfloat" where
  "speed_score master borough_row =
     (let lo = of_float (col_min (map avg_dispatch_sec master));
          hi = of_float (col_max (map avg_dispatch_sec master))
      in np_sub (Fin 100)
           (np_mul (np_div (np_sub (of_float (avg_dispatch_sec borough_row)) lo) (np_sub hi lo))
              (Fin 100)))"

text \<open>Line 258.\<close>

definition reliability_score :: "master_row list \<Rightarrow> master_row \<Rightarrow> npfloat" where
  "reliability_score master borough_row =
     (let hi = of_float (col_max (float_col (map extreme_delays master)))
      in if np_positive hi
         then np_sub (Fin 100)
                (np_mul (np_div (Fin (real (extreme_delays borough_row))) hi) (Fin 100))
         else Fin 100)"

record radar_trace =
  trace_name :: string
  r_meets_8min :: npfloat
  r_speed_score :: npfloat
  r_meets_5min :: npfloat
  r_reliability_score :: npfloat

text \<open>
  Lines 252-269: one trace per borough name of the master table, built from the first row
  with that name (\<^verbatim>\<open>.iloc[0]\<close> raises when there is none).
\<close>

definition radar_trace_of :: "master_row list \<Rightarrow> string \<Rightarrow> error + radar_trace" where
  "radar_trace_of master borough_name =
     (case filter (\<lambda>m. m_borough m = borough_name) master of
        [] \<Rightarrow> Inl NoSuchRow
      | borough_row # _ \<Rightarrow>
          Inr \<lparr>trace_name = borough_name,
               r_meets_8min = of_float (meets_8min borough_row),
               r_speed_score = speed_score master borough_row,
               r_meets_5min = of_float (meets_5min borough_row),
               r_reliability_score = reliability_score master borough_row\<rparr>)"

fun collect :: "('a \<Rightarrow> error + 'b) \<Rightarrow> 'a list \<Rightarrow> error + 'b list" where
  "collect f [] = Inr []"
| "collect f (x # xs) =
     (case f x of Inl e \<Rightarrow> Inl e
      | Inr y \<Rightarrow> (case collect f xs of Inl e \<Rightarrow> Inl e | Inr ys \<Rightarrow> Inr (y # ys)))"

definition fig_radar :: "master_row list \<Rightarrow> error + radar_trace list" where
  "fig_radar master = collect (radar_trace_of master) (map m_borough master)"

subsection \<open>Module 6: the correlation matrix\<close>

text \<open>
  \<^verbatim>\<open>DataFrame.corr()\<close> (Pearson, \<^verbatim>\<open>min_periods=1\<close>) as pandas computes it: for every pair
  of columns one pass over the rows in which both are present, updating running means and
  sums of squared deviations (Welford's method); the coefficient is the co-moment divided
  by the root of the product of the two squared-deviation sums, clipped to \<open>[-1, 1]\<close>, and
  NaN when that divisor is zero or no row was seen. The entry is computed once for a pair
  and stored at both positions.
\<close>

record welford =
  nobs :: nat
  meanx :: real
  meany :: real
  ssqdm_x :: real
  ssqdm_y :: real
  covxy :: real

definition welford_init :: welford where
  "welford_init = \<lparr>nobs = 0, meanx = 0, meany = 0, ssqdm_x = 0, ssqdm_y = 0, covxy = 0\<rparr>"

definition welford_step :: "welford \<Rightarrow> real option \<times> real option \<Rightarrow> welford" where
  "welford_step w p =
     (case p of
        (Some vx, Some vy) \<Rightarrow>
          (let n = nobs w + 1;
               dx = vx - meanx w;
               dy = vy - meany w;
               mx = meanx w + 1 / real n * dx;
               my = meany w + 1 / real n * dy
           in \<lparr>nobs = n, meanx = mx, meany = my,
               ssqdm_x = ssqdm_x w + (vx - mx) * dx,
               ssqdm_y = ssqdm_y w + (vy - my) * dy,
               covxy = covxy w + (vx - mx) * dy\<rparr>)
      | _ \<Rightarrow> w)"

definition clip_unit :: "real \<Rightarrow> real" where
  "clip_unit v = (if 1 < v then 1 else if v < - 1 then - 1 else v)"

definition nancorr_pair :: "real option list \<Rightarrow> real option list \<Rightarrow> real option" where
  "nancorr_pair xs ys =
     (let w = foldl welford_step welford_init (zip xs ys) in
      if nobs w < 1 then None
      else let divisor = sqrt (ssqdm_x w * ssqdm_y w) in
        if divisor \<noteq> 0 then Some (clip_unit (covxy w / divisor)) else None)"

definition nancorr :: "real option list list \<Rightarrow> real option list list" where
  "nancorr mat =
     map (\<lambda>xi. map (\<lambda>yi. nancorr_pair (mat ! max xi yi) (mat ! min xi yi)) [0..<length mat])
         [0..<length mat]"

text \<open>Line 279: the five columns handed to \<^verbatim>\<open>corr\<close>, in this order.\<close>

definition corr_columns :: "master_row list \<Rightarrow> real option list list" where
  "corr_columns master =
     [map avg_dispatch_sec master,
      float_col (map total_calls master),
      map meets_5min master,
      map meets_8min master,
      float_col (map extreme_delays master)]"

definition corr_matrix :: "master_row list \<Rightarrow> real option list list" where
  "corr_matrix master = nancorr (corr_columns master)"

subsection \<open>The whole run\<close>

record report =
  rep_master_data :: "master_row list"
  rep_bucket_counts :: "(perf_label \<times> nat) list"
  rep_total_calls :: nat
  rep_overall_8min_rate :: "real option"
  rep_extreme_delays :: nat
  rep_best_borough :: master_row
  rep_worst_borough :: master_row
  rep_busiest_borough :: master_row
  rep_perf_by_borough :: "(string \<times> (perf_label \<times> real option) list) list"
  rep_fig_radar :: "radar_trace list"
  rep_corr_matrix :: "real option list list"

text \<open>
  The tables of the script in the order it computes them; the first exception ends the run.
  The SQL examples (built by the host library from the raw file), the percentile table, the
  charts and the optional daily trend take no part in any of these tables and are left out
  (of the chart calls, \<^verbatim>\<open>px.scatter\<close> rejects a negative marker size, which a mean of
  response times that are not negative never is).
\<close>

definition bind :: "error + 'a \<Rightarrow> ('a \<Rightarrow> error + 'b) \<Rightarrow> error + 'b" where
  "bind m f = (case m of Inl e \<Rightarrow> Inl e | Inr x \<Rightarrow> f x)"

definition run :: "(string \<Rightarrow> real option) \<Rightarrow> raw_incident list \<Rightarrow> error + report" where
  "run parse raw_ems_data =
     (let clean = clean_dataset (working_dataset parse raw_ems_data);
          master = master_data clean
      in bind (bind (bind (metric_column clean ''meets_8min'' meets_8min master) idxmax)
                 (loc master)) (\<lambda>best.
         bind (bind (bind (metric_column clean ''meets_8min'' meets_8min master) idxmin)
                 (loc master)) (\<lambda>worst.
         bind (bind (idxmax (float_col (map total_calls master))) (loc master)) (\<lambda>busiest.
         bind (fig_radar master) (\<lambda>traces.
           Inr \<lparr>rep_master_data = master,
                rep_bucket_counts = bucket_counts clean,
                rep_total_calls = length clean,
                rep_overall_8min_rate = overall_8min_rate clean,
                rep_extreme_delays = citywide_extreme_delays clean,
                rep_best_borough = best,
                rep_worst_borough = worst,
                rep_busiest_borough = busiest,
                rep_perf_by_borough = perf_by_borough clean,
                rep_fig_radar = traces,
                rep_corr_matrix = corr_matrix master\<rparr>)))))"

subsection \<open>Auxiliary notions for the statements\<close>

text \<open>The surviving incidents of one borough, in their original order.\<close>

definition region_rows :: "incident list \<Rightarrow> string \<Rightarrow> incident list" where
  "region_rows clean b = filter (\<lambda>r. borough r = b) clean"

text \<open>A column is constant when its non-NaN entries are all the same number.\<close>

definition constant_col :: "real option list \<Rightarrow> bool" where
  "constant_col col = (\<forall>a\<in>set (dropna_values col). \<forall>b\<in>set (dropna_values col). a = b)"

section \<open>Properties\<close>

subsection \<open>Rows of the master table\<close>

lemma groupby_borough_iff:
  "(b, x) \<in> set (groupby_borough df) \<longleftrightarrow> b \<in> borough ` set df \<and> x = filter (\<lambda>r. borough r = b) df"
  by (auto simp: groupby_borough_def)

lemma groupby_borough_nonempty:
  assumes "(b, x) \<in> set (groupby_borough df)"
  shows "x \<noteq> []"
proof -
  from assms obtain r where "r \<in> set df" "borough r = b" and x: "x = filter (\<lambda>r. borough r = b) df"
    by (auto simp: groupby_borough_iff)
  then have "r \<in> set x" by simp
  then show ?thesis by auto
qed

lemma master_data_row:
  assumes "row \<in> set (master_data clean)"
  shows "m_borough row \<in> borough ` set clean"
    and "region_rows clean (m_borough row) \<noteq> []"
    and "avg_dispatch_sec row =
           round_col 2 (mean (map dispatch_response_seconds_qy (region_rows clean (m_borough row))))"
    and "median_dispatch_sec row =
           round_col 2 (median (map dispatch_response_seconds_qy (region_rows clean (m_borough row))))"
    and "total_calls row = length (region_rows clean (m_borough row))"
    and "avg_incident_sec row =
           round_col 2 (mean (dropna_values (map incident_response_seconds_qy (region_rows clean (m_borough row)))))"
    and "median_incident row =
           round_col 2 (median (dropna_values (map incident_response_seconds_qy (region_rows clean (m_borough row)))))"
    and "meets_5min row =
           round_col 2 (times100 (bool_mean (map (\<lambda>v. v \<le> 300)
             (map dispatch_response_seconds_qy (region_rows clean (m_borough row))))))"
    and "meets_8min row =
           round_col 2 (times100 (bool_mean (map (\<lambda>v. v \<le> 480)
             (map dispatch_response_seconds_qy (region_rows clean (m_borough row))))))"
    and "extreme_delays row =
           bool_sum (map (\<lambda>v. 600 < v) (map dispatch_response_seconds_qy (region_rows clean (m_borough row))))"
proof -
  from assms obtain s p where s: "s \<in> set (borough_stats clean)"
    and p: "p \<in> set (performance_metrics clean)"
    and key: "pm_borough p = bs_borough s" and row: "row = merge_row s p"
    unfolding master_data_def merge_on_borough_def by auto
  from s obtain b where b: "b \<in> borough ` set clean"
    and s': "s = \<lparr>bs_borough = b,
             bs_avg_dispatch_sec = round_col 2 (mean (map dispatch_response_seconds_qy (region_rows clean b))),
             bs_median_dispatch_sec = round_col 2 (median (map dispatch_response_seconds_qy (region_rows clean b))),
             bs_std_dispatch = round_col 2 (std (map dispatch_response_seconds_qy (region_rows clean b))),
             bs_total_calls = length (map dispatch_response_seconds_qy (region_rows clean b)),
             bs_avg_incident_sec = round_col 2 (mean (dropna_values (map incident_response_seconds_qy (region_rows clean b)))),
             bs_median_incident = round_col 2 (median (dropna_values (map incident_response_seconds_qy (region_rows clean b))))\<rparr>"
    unfolding borough_stats_def groupby_borough_def region_rows_def Let_def by auto
  from p obtain b' where
    p': "p = \<lparr>pm_borough = b',
             pm_meets_5min = round_col 2 (times100 (bool_mean (map (\<lambda>v. v \<le> 300) (map dispatch_response_seconds_qy (region_rows clean b'))))),
             pm_meets_8min = round_col 2 (times100 (bool_mean (map (\<lambda>v. v \<le> 480) (map dispatch_response_seconds_qy (region_rows clean b'))))),
             pm_extreme_delays = bool_sum (map (\<lambda>v. 600 < v) (map dispatch_response_seconds_qy (region_rows clean b')))\<rparr>"
    unfolding performance_metrics_def groupby_borough_def region_rows_def Let_def by auto
  have bs: "bs_borough s = b" by (simp only: s' borough_stats_row.simps)
  have pm: "pm_borough p = b'" by (simp only: p' performance_metrics_row.simps)
  have eq: "b' = b" using key bs pm by simp
  have mb: "m_borough row = b" by (simp only: row merge_row_def master_row.simps bs)
  show "m_borough row \<in> borough ` set clean" using b mb by simp
  from b obtain r where "r \<in> set clean" "borough r = b" by auto
  then have "r \<in> set (region_rows clean b)" by (simp add: region_rows_def)
  then show "region_rows clean (m_borough row) \<noteq> []" unfolding mb by auto
  show "avg_dispatch_sec row =
           round_col 2 (mean (map dispatch_response_seconds_qy (region_rows clean (m_borough row))))"
    unfolding mb by (simp only: row merge_row_def master_row.simps) (simp only: s' borough_stats_row.simps)
  show "median_dispatch_sec row =
           round_col 2 (median (map dispatch_response_seconds_qy (region_rows clean (m_borough row))))"
    unfolding mb by (simp only: row merge_row_def master_row.simps) (simp only: s' borough_stats_row.simps)
  show "total_calls row = length (region_rows clean (m_borough row))"
    unfolding mb by (simp only: row merge_row_def master_row.simps) (simp only: s' borough_stats_row.simps length_map)
  show "avg_incident_sec row =
           round_col 2 (mean (dropna_values (map incident_response_seconds_qy (region_rows clean (m_borough row)))))"
    unfolding mb by (simp only: row merge_row_def master_row.simps) (simp only: s' borough_stats_row.simps)
  show "median_incident row =
           round_col 2 (median (dropna_values (map incident_response_seconds_qy (region_rows clean (m_borough row)))))"
    unfolding mb by (simp only: row merge_row_def master_row.simps) (simp only: s' borough_stats_row.simps)
  show "meets_5min row =
           round_col 2 (times100 (bool_mean (map (\<lambda>v. v \<le> 300)
             (map dispatch_response_seconds_qy (region_rows clean (m_borough row))))))"
    unfolding mb by (simp only: row merge_row_def master_row.simps) (simp only: p' eq performance_metrics_row.simps)
  show "meets_8min row =
           round_col 2 (times100 (bool_mean (map (\<lambda>v. v \<le> 480)
             (map dispatch_response_seconds_qy (region_rows clean (m_borough row))))))"
    unfolding mb by (simp only: row merge_row_def master_row.simps) (simp only: p' eq performance_metrics_row.simps)
  show "extreme_delays row =
           bool_sum (map (\<lambda>v. 600 < v) (map dispatch_response_seconds_qy (region_rows clean (m_borough row))))"
    unfolding mb by (simp only: row merge_row_def master_row.simps) (simp only: p' eq performance_metrics_row.simps)
qed

subsection \<open>Rounding and shares\<close>

lemma round_half_even_mono:
  assumes "x \<le> y"
  shows "round_half_even x \<le> round_half_even y"
proof (cases "\<lfloor>x\<rfloor> = \<lfloor>y\<rfloor>")
  case True
  with assms show ?thesis by (auto simp: round_half_even_def Let_def)
next
  case False
  with assms have lt: "\<lfloor>x\<rfloor> + 1 \<le> \<lfloor>y\<rfloor>" using floor_mono [of x y] by linarith
  have "round_half_even x \<le> \<lfloor>x\<rfloor> + 1" by (auto simp: round_half_even_def Let_def)
  moreover have "\<lfloor>y\<rfloor> \<le> round_half_even y" by (auto simp: round_half_even_def Let_def)
  ultimately show ?thesis using lt by linarith
qed

lemma np_round_mono: "x \<le> y \<Longrightarrow> np_round k x \<le> np_round k y"
  unfolding np_round_def
  by (intro divide_right_mono of_int_le_iff[THEN iffD2] round_half_even_mono mult_right_mono) simp_all

lemma sum_list_indicator: "sum_list (map (\<lambda>b. if b then 1 else (0::real)) bs) = real (bool_sum bs)"
  by (induction bs) (simp_all add: bool_sum_def)

lemma bool_mean_eq: "bs \<noteq> [] \<Longrightarrow> bool_mean bs = Some (real (bool_sum bs) / real (length bs))"
  by (simp add: bool_mean_def mean_def sum_list_indicator)

lemma bool_sum_mono: "(\<And>v. P v \<Longrightarrow> Q v) \<Longrightarrow> bool_sum (map P d) \<le> bool_sum (map Q d)"
  by (induction d) (auto simp: bool_sum_def)

subsection \<open>Compliance rates\<close>

text \<open>
  Claim C3. In every row of the master table both compliance rates are numbers, and the
  5-minute rate is at most the 8-minute rate: an incident dispatched within 300 seconds is
  also dispatched within 480 seconds, and dividing by the group size, scaling by 100 and
  rounding to two decimals are all monotone.
\<close>

theorem meets_5min_le_meets_8min:
  assumes "row \<in> set (master_data clean)"
  shows "\<exists>a b. meets_5min row = Some a \<and> meets_8min row = Some b \<and> a \<le> b"
proof -
  let ?d = "map dispatch_response_seconds_qy (region_rows clean (m_borough row))"
  let ?n = "real (length ?d)"
  let ?c5 = "real (bool_sum (map (\<lambda>v. v \<le> 300) ?d))"
  let ?c8 = "real (bool_sum (map (\<lambda>v. v \<le> 480) ?d))"
  have ne: "?d \<noteq> []" using master_data_row(2) [OF assms] by simp
  have "bool_sum (map (\<lambda>v. v \<le> 300) ?d) \<le> bool_sum (map (\<lambda>v. v \<le> 480) ?d)"
    by (rule bool_sum_mono) simp
  then have "?c5 / ?n * 100 \<le> ?c8 / ?n * 100"
    by (intro mult_right_mono divide_right_mono) simp_all
  then have le: "np_round 2 (?c5 / ?n * 100) \<le> np_round 2 (?c8 / ?n * 100)"
    by (rule np_round_mono)
  have b5: "bool_mean (map (\<lambda>v. v \<le> 300) ?d) = Some (?c5 / ?n)"
    using ne bool_mean_eq [of "map (\<lambda>v. v \<le> 300) ?d"] by simp
  have b8: "bool_mean (map (\<lambda>v. v \<le> 480) ?d) = Some (?c8 / ?n)"
    using ne bool_mean_eq [of "map (\<lambda>v. v \<le> 480) ?d"] by simp
  have "meets_5min row = Some (np_round 2 (?c5 / ?n * 100))"
    unfolding master_data_row(8) [OF assms] b5 by (simp add: round_col_def times100_def)
  moreover have "meets_8min row = Some (np_round 2 (?c8 / ?n * 100))"
    unfolding master_data_row(9) [OF assms] b8 by (simp add: round_col_def times100_def)
  ultimately show ?thesis using le by simp
qed


theorem meets_5min_le_meets_8min_witness:
  "hd (master_data
     [\<lparr>borough = ''R1'', dispatch_response_seconds_qy = 200, incident_response_seconds_qy = None\<rparr>,
      \<lparr>borough = ''R1'', dispatch_response_seconds_qy = 400, incident_response_seconds_qy = None\<rparr>,
      \<lparr>borough = ''R2'', dispatch_response_seconds_qy = 700, incident_response_seconds_qy = None\<rparr>])
   \<in> set (master_data
     [\<lparr>borough = ''R1'', dispatch_response_seconds_qy = 200, incident_response_seconds_qy = None\<rparr>,
      \<lparr>borough = ''R1'', dispatch_response_seconds_qy = 400, incident_response_seconds_qy = None\<rparr>,
      \<lparr>borough = ''R2'', dispatch_response_seconds_qy = 700, incident_response_seconds_qy = None\<rparr>])
   \<and> (\<exists>a b. meets_5min (hd (master_data
     [\<lparr>borough = ''R1'', dispatch_response_seconds_qy = 200, incident_response_seconds_qy = None\<rparr>,
      \<lparr>borough = ''R1'', dispatch_response_seconds_qy = 400, incident_response_seconds_qy = None\<rparr>,
      \<lparr>borough = ''R2'', dispatch_response_seconds_qy = 700, incident_response_seconds_qy = None\<rparr>])) = Some a
     \<and> meets_8min (hd (master_data
     [\<lparr>borough = ''R1'', dispatch_response_seconds_qy = 200, incident_response_seconds_qy = None\<rparr>,
      \<lparr>borough = ''R1'', dispatch_response_seconds_qy = 400, incident_response_seconds_qy = None\<rparr>,
      \<lparr>borough = ''R2'', dispatch_response_seconds_qy = 700, incident_response_seconds_qy = None\<rparr>])) = Some b
     \<and> a \<le> b)"
proof -
  let ?clean = "[\<lparr>borough = ''R1'', dispatch_response_seconds_qy = 200, incident_response_seconds_qy = None\<rparr>,
      \<lparr>borough = ''R1'', dispatch_response_seconds_qy = 400, incident_response_seconds_qy = None\<rparr>,
      \<lparr>borough = ''R2'', dispatch_response_seconds_qy = 700, incident_response_seconds_qy = None\<rparr>]"
  have "master_data ?clean \<noteq> []"
    by (simp add: master_data_def merge_on_borough_def borough_stats_def performance_metrics_def
        groupby_borough_def Let_def)
  then have h: "hd (master_data ?clean) \<in> set (master_data ?clean)"
    by (rule hd_in_set)
  from h meets_5min_le_meets_8min [OF h] show ?thesis by (rule conjI)
qed

subsection \<open>Performance buckets\<close>

text \<open>
  Claim C1, evaluated where it fails. An incident dispatched after 0 seconds survives
  cleaning but lies in none of the intervals of \<^verbatim>\<open>pd.cut\<close>, whose first interval \<open>(0, 300]\<close>
  is open at 0: its bucket is NaN, and the bucket counts of the two surviving incidents
  below add up to 1.
\<close>

theorem zero_seconds_incident_in_no_bucket:
  "clean_dataset (working_dataset (\<lambda>s. None)
       [\<lparr>raw_borough = Some ''BRONX'', raw_dispatch_response_seconds_qy = Number 0,
         raw_incident_response_seconds_qy = Null\<rparr>,
        \<lparr>raw_borough = Some ''BRONX'', raw_dispatch_response_seconds_qy = Number 120,
         raw_incident_response_seconds_qy = Null\<rparr>])
     = [\<lparr>borough = ''BRONX'', dispatch_response_seconds_qy = 0, incident_response_seconds_qy = None\<rparr>,
        \<lparr>borough = ''BRONX'', dispatch_response_seconds_qy = 120, incident_response_seconds_qy = None\<rparr>]
   \<and> perf_bucket \<lparr>borough = ''BRONX'', dispatch_response_seconds_qy = 0,
        incident_response_seconds_qy = None\<rparr> = None
   \<and> bucket_counts
       [\<lparr>borough = ''BRONX'', dispatch_response_seconds_qy = 0, incident_response_seconds_qy = None\<rparr>,
        \<lparr>borough = ''BRONX'', dispatch_response_seconds_qy = 120, incident_response_seconds_qy = None\<rparr>]
     = [(Excellent, 1), (Good, 0), (Poor, 0), (Critical, 0)]"
  by (simp add: clean_dataset_def working_dataset_def List.map_filter_simps dropna_def to_numeric_def
     perf_bucket_def cut_def bucket_counts_def value_counts_def categories_def)

subsection \<open>Radar scores\<close>

text \<open>
  Claim C2, evaluated where it fails. When all boroughs have the same mean dispatch time,
  the speed score divides \<open>0\<close> by \<open>max - min = 0\<close>; the result is NaN for every borough, not
  a number between 0 and 100. (The reliability score on the next line of the script guards
  its division; the speed score does not.)
\<close>

theorem speed_score_nan_when_means_equal:
  "map (speed_score (master_data
       [\<lparr>borough = ''BRONX'', dispatch_response_seconds_qy = 200, incident_response_seconds_qy = None\<rparr>,
        \<lparr>borough = ''QUEENS'', dispatch_response_seconds_qy = 200, incident_response_seconds_qy = None\<rparr>]))
     (master_data
       [\<lparr>borough = ''BRONX'', dispatch_response_seconds_qy = 200, incident_response_seconds_qy = None\<rparr>,
        \<lparr>borough = ''QUEENS'', dispatch_response_seconds_qy = 200, incident_response_seconds_qy = None\<rparr>])
    = [NaN, NaN]"
  by (simp add: master_data_def merge_on_borough_def merge_row_def borough_stats_def
      performance_metrics_def groupby_borough_def round_col_def times100_def bool_mean_def mean_def
      np_round_def round_half_even_def Let_def bool_sum_def dropna_values_def
      speed_score_def col_min_def col_max_def of_float_def np_sub_def signed_inf_def np_sign_def)

subsection \<open>Cleaning\<close>

lemma working_dataset_append:
  "working_dataset parse (xs @ ys) = working_dataset parse xs @ working_dataset parse ys"
  by (simp add: working_dataset_def)

lemma clean_dataset_append:
  "clean_dataset (ws @ vs) = clean_dataset ws @ clean_dataset vs"
  by (simp add: clean_dataset_def List.map_filter_def)

lemma clean_dataset_Cons:
  "clean_dataset (w # ws) = (case dropna w of None \<Rightarrow> clean_dataset ws | Some r \<Rightarrow> r # clean_dataset ws)"
  by (simp add: clean_dataset_def List.map_filter_simps split: option.splits)

text \<open>
  Claim C7. Coercion has no failing case: text that does not parse becomes NaN. A raw row
  whose borough is missing or whose dispatch time is NaN after coercion leaves no trace:
  the cleaned data, and with it every table of the run and the outcome of the run itself,
  are what they are without that row.
\<close>

theorem malformed_record_silently_excluded:
  assumes "raw_borough r = None \<or> to_numeric parse (raw_dispatch_response_seconds_qy r) = None"
  shows "(parse s = None \<longrightarrow> to_numeric parse (Text s) = None)
       \<and> clean_dataset (working_dataset parse (xs @ r # ys))
           = clean_dataset (working_dataset parse (xs @ ys))
       \<and> run parse (xs @ r # ys) = run parse (xs @ ys)"
proof -
  have "dropna \<lparr>w_borough = raw_borough r,
               w_dispatch_response_seconds_qy = to_numeric parse (raw_dispatch_response_seconds_qy r),
               w_incident_response_seconds_qy = to_numeric parse (raw_incident_response_seconds_qy r)\<rparr>
        = None"
    using assms by (auto simp: dropna_def split: option.splits)
  then have "clean_dataset (working_dataset parse [r]) = []"
    by (simp add: working_dataset_def clean_dataset_Cons clean_dataset_def List.map_filter_simps)
  then have eq: "clean_dataset (working_dataset parse (xs @ r # ys))
           = clean_dataset (working_dataset parse (xs @ ys))"
    using working_dataset_append [of parse xs "[r] @ ys"] working_dataset_append [of parse "[r]" ys]
      working_dataset_append [of parse xs ys]
    by (simp add: clean_dataset_append)
  have "run parse (xs @ r # ys) = run parse (xs @ ys)"
    unfolding run_def eq ..
  with eq show ?thesis by (simp add: to_numeric_def)
qed


theorem malformed_record_silently_excluded_witness:
  "to_numeric (\<lambda>s. None) (Text ''n/a'') = None
   \<and> clean_dataset (working_dataset (\<lambda>s. None)
        ([\<lparr>raw_borough = Some ''BRONX'', raw_dispatch_response_seconds_qy = Number 200,
           raw_incident_response_seconds_qy = Null\<rparr>]
         @ \<lparr>raw_borough = Some ''QUEENS'', raw_dispatch_response_seconds_qy = Text ''n/a'',
             raw_incident_response_seconds_qy = Number 300\<rparr> # []))
     = [\<lparr>borough = ''BRONX'', dispatch_response_seconds_qy = 200, incident_response_seconds_qy = None\<rparr>]
   \<and> run (\<lambda>s. None)
        ([\<lparr>raw_borough = Some ''BRONX'', raw_dispatch_response_seconds_qy = Number 200,
           raw_incident_response_seconds_qy = Null\<rparr>]
         @ \<lparr>raw_borough = Some ''QUEENS'', raw_dispatch_response_seconds_qy = Text ''n/a'',
             raw_incident_response_seconds_qy = Number 300\<rparr> # [])
     = run (\<lambda>s. None)
        ([\<lparr>raw_borough = Some ''BRONX'', raw_dispatch_response_seconds_qy = Number 200,
           raw_incident_response_seconds_qy = Null\<rparr>] @ [])"
proof -
  let ?r = "\<lparr>raw_borough = Some ''QUEENS'', raw_dispatch_response_seconds_qy = Text ''n/a'',
             raw_incident_response_seconds_qy = Number 300\<rparr>"
  have h: "raw_borough ?r = None
      \<or> to_numeric (\<lambda>s. None) (raw_dispatch_response_seconds_qy ?r) = None"
    by (simp add: to_numeric_def)
  have c: "clean_dataset (working_dataset (\<lambda>s. None)
        ([\<lparr>raw_borough = Some ''BRONX'', raw_dispatch_response_seconds_qy = Number 200,
           raw_incident_response_seconds_qy = Null\<rparr>] @ []))
     = [\<lparr>borough = ''BRONX'', dispatch_response_seconds_qy = 200, incident_response_seconds_qy = None\<rparr>]"
    by (simp add: clean_dataset_def working_dataset_def List.map_filter_simps dropna_def
        to_numeric_def)
  from malformed_record_silently_excluded [OF h, of "''n/a''"
      "[\<lparr>raw_borough = Some ''BRONX'', raw_dispatch_response_seconds_qy = Number 200,
           raw_incident_response_seconds_qy = Null\<rparr>]" "[]"] c
  show ?thesis by simp
qed

subsection \<open>The empty incident set\<close>

lemma master_data_Nil: "master_data [] = []"
  by (simp add: master_data_def merge_on_borough_def borough_stats_def groupby_borough_def)

text \<open>
  Claim C6. When no incident survives cleaning there is no group, the master table has no
  column \<^verbatim>\<open>meets_8min\<close>, and the run ends at line 90 with the \<^verbatim>\<open>KeyError\<close> of selecting
  it; this is before the first table is shown, so no report is produced.
\<close>

theorem empty_incident_set_aborts:
  assumes "clean_dataset (working_dataset parse raw_ems_data) = []"
  shows "run parse raw_ems_data = Inl (KeyError ''meets_8min'')"
  unfolding run_def Let_def assms master_data_Nil
  by (simp add: metric_column_def groupby_borough_def bind_def)

theorem empty_incident_set_aborts_witness:
  "clean_dataset (working_dataset (\<lambda>s. None)
     [\<lparr>raw_borough = Some ''BRONX'', raw_dispatch_response_seconds_qy = Text ''n/a'',
       raw_incident_response_seconds_qy = Number 300\<rparr>,
      \<lparr>raw_borough = None, raw_dispatch_response_seconds_qy = Number 120,
       raw_incident_response_seconds_qy = Number 300\<rparr>]) = []
   \<and> run (\<lambda>s. None)
     [\<lparr>raw_borough = Some ''BRONX'', raw_dispatch_response_seconds_qy = Text ''n/a'',
       raw_incident_response_seconds_qy = Number 300\<rparr>,
      \<lparr>raw_borough = None, raw_dispatch_response_seconds_qy = Number 120,
       raw_incident_response_seconds_qy = Number 300\<rparr>] = Inl (KeyError ''meets_8min'')"
proof -
  have h: "clean_dataset (working_dataset (\<lambda>s. None)
     [\<lparr>raw_borough = Some ''BRONX'', raw_dispatch_response_seconds_qy = Text ''n/a'',
       raw_incident_response_seconds_qy = Number 300\<rparr>,
      \<lparr>raw_borough = None, raw_dispatch_response_seconds_qy = Number 120,
       raw_incident_response_seconds_qy = Number 300\<rparr>]) = []"
    by (simp add: clean_dataset_def working_dataset_def List.map_filter_simps dropna_def
        to_numeric_def)
  from h empty_incident_set_aborts [OF h] show ?thesis by (rule conjI)
qed

subsection \<open>Reliability score\<close>

lemma fold_max_const: "\<forall>v\<in>set vs. v = (c::real) \<Longrightarrow> fold max vs c = c"
  by (induction vs) simp_all

lemma dropna_values_Some: "dropna_values (map Some vs) = vs"
  by (induction vs) (simp_all add: dropna_values_def List.map_filter_simps)

lemma col_max_zero_counts:
  assumes "\<forall>n\<in>set col. n = 0"
  shows "\<not> np_positive (of_float (col_max (float_col col)))"
proof (cases col)
  case Nil
  then show ?thesis
    by (simp add: col_max_def float_col_def dropna_values_def List.map_filter_simps of_float_def
        np_positive_def)
next
  case (Cons n ns)
  have fc: "float_col col = map Some (map real col)" by (simp add: float_col_def)
  have "fold max (map real ns) (real n) = 0"
    using assms Cons fold_max_const [of "map real ns" 0] by simp
  then show ?thesis
    unfolding fc col_max_def dropna_values_Some using Cons
    by (simp add: of_float_def np_positive_def)
qed


lemma collect_all:
  assumes "\<forall>x\<in>set xs. \<exists>y. f x = Inr y \<and> P y"
  shows "\<exists>ys. collect f xs = Inr ys \<and> length ys = length xs \<and> (\<forall>y\<in>set ys. P y)"
  using assms
proof (induction xs)
  case Nil
  then show ?case by simp
next
  case (Cons x xs)
  then obtain y where y: "f x = Inr y" "P y" by auto
  from Cons obtain ys where "collect f xs = Inr ys" "length ys = length xs" "\<forall>y\<in>set ys. P y"
    by auto
  with y show ?case by simp
qed

lemma radar_trace_of_row:
  assumes "borough_name \<in> m_borough ` set master"
  shows "\<exists>row\<in>set master. radar_trace_of master borough_name =
           Inr \<lparr>trace_name = borough_name,
                r_meets_8min = of_float (meets_8min row),
                r_speed_score = speed_score master row,
                r_meets_5min = of_float (meets_5min row),
                r_reliability_score = reliability_score master row\<rparr>"
proof (cases "filter (\<lambda>m. m_borough m = borough_name) master")
  case Nil
  with assms show ?thesis by (auto simp: filter_empty_conv)
next
  case (Cons row rest)
  then have "row \<in> set (filter (\<lambda>m. m_borough m = borough_name) master)" by simp
  then have "row \<in> set master" by simp
  then show ?thesis using Cons by (auto simp: radar_trace_of_def)
qed

lemma fig_radar_all:
  assumes "\<forall>row\<in>set master. P (speed_score master row) (reliability_score master row)"
  shows "\<exists>traces. fig_radar master = Inr traces \<and> length traces = length master \<and>
           (\<forall>t\<in>set traces. P (r_speed_score t) (r_reliability_score t))"
proof -
  have "\<forall>n\<in>set (map m_borough master). \<exists>t. radar_trace_of master n = Inr t \<and>
          P (r_speed_score t) (r_reliability_score t)"
  proof
    fix n assume "n \<in> set (map m_borough master)"
    then have "n \<in> m_borough ` set master" by simp
    from radar_trace_of_row [OF this] obtain row where "row \<in> set master"
      and t: "radar_trace_of master n =
           Inr \<lparr>trace_name = n,
                r_meets_8min = of_float (meets_8min row),
                r_speed_score = speed_score master row,
                r_meets_5min = of_float (meets_5min row),
                r_reliability_score = reliability_score master row\<rparr>" by blast
    with assms show "\<exists>t. radar_trace_of master n = Inr t \<and>
          P (r_speed_score t) (r_reliability_score t)" by simp
  qed
  from collect_all [OF this] show ?thesis by (simp add: fig_radar_def)
qed

lemma bool_sum_none: "\<forall>v\<in>set vs. \<not> P v \<Longrightarrow> bool_sum (map P vs) = 0"
  by (induction vs) (simp_all add: bool_sum_def)

text \<open>
  Claim C8. When no surviving incident was dispatched after more than 600 seconds, the
  reliability score is 100 in every row of the master table, and the radar chart gets one
  trace per row, each with reliability 100: the guard \<^verbatim>\<open>if max > 0 else 100\<close> avoids
  the division by the zero maximum.
\<close>

theorem reliability_100_without_extreme_delays:
  assumes "\<forall>r\<in>set clean. \<not> 600 < dispatch_response_seconds_qy r"
  shows "(\<forall>row\<in>set (master_data clean). reliability_score (master_data clean) row = Fin 100)
       \<and> (\<exists>traces. fig_radar (master_data clean) = Inr traces
             \<and> length traces = length (master_data clean)
             \<and> (\<forall>t\<in>set traces. r_reliability_score t = Fin 100))"
proof -
  have zero: "\<forall>n\<in>set (map extreme_delays (master_data clean)). n = 0"
  proof
    fix n assume "n \<in> set (map extreme_delays (master_data clean))"
    then obtain row where row: "row \<in> set (master_data clean)" and n: "n = extreme_delays row"
      by auto
    have "\<forall>v\<in>set (map dispatch_response_seconds_qy (region_rows clean (m_borough row))). \<not> 600 < v"
      using assms by (auto simp: region_rows_def)
    then show "n = 0"
      unfolding n master_data_row(10) [OF row] by (rule bool_sum_none)
  qed
  have all: "\<forall>row\<in>set (master_data clean). reliability_score (master_data clean) row = Fin 100"
    using col_max_zero_counts [OF zero] by (simp add: reliability_score_def)
  then have "\<forall>row\<in>set (master_data clean).
      (\<lambda>s r. r = Fin 100) (speed_score (master_data clean) row) (reliability_score (master_data clean) row)"
    by simp
  from fig_radar_all [of "master_data clean" "\<lambda>s r. r = Fin 100", OF this] all
  show ?thesis by simp
qed

theorem reliability_100_without_extreme_delays_witness:
  "\<not> 600 < dispatch_response_seconds_qy
       \<lparr>borough = ''BRONX'', dispatch_response_seconds_qy = 200, incident_response_seconds_qy = None\<rparr>
   \<and> \<not> 600 < dispatch_response_seconds_qy
       \<lparr>borough = ''QUEENS'', dispatch_response_seconds_qy = 600, incident_response_seconds_qy = None\<rparr>
   \<and> map (reliability_score (master_data
       [\<lparr>borough = ''BRONX'', dispatch_response_seconds_qy = 200, incident_response_seconds_qy = None\<rparr>,
        \<lparr>borough = ''QUEENS'', dispatch_response_seconds_qy = 600, incident_response_seconds_qy = None\<rparr>]))
     (master_data
       [\<lparr>borough = ''BRONX'', dispatch_response_seconds_qy = 200, incident_response_seconds_qy = None\<rparr>,
        \<lparr>borough = ''QUEENS'', dispatch_response_seconds_qy = 600, incident_response_seconds_qy = None\<rparr>])
     = [Fin 100, Fin 100]"
proof -
  let ?clean = "[\<lparr>borough = ''BRONX'', dispatch_response_seconds_qy = 200, incident_response_seconds_qy = None\<rparr>,
        \<lparr>borough = ''QUEENS'', dispatch_response_seconds_qy = 600, incident_response_seconds_qy = None\<rparr>]"
  have h: "\<forall>r\<in>set ?clean. \<not> 600 < dispatch_response_seconds_qy r" by simp
  have len: "length (master_data ?clean) = 2"
    by (simp add: master_data_def merge_on_borough_def borough_stats_def performance_metrics_def
        groupby_borough_def Let_def)
  from reliability_100_without_extreme_delays [OF h]
  have "\<forall>row\<in>set (master_data ?clean). reliability_score (master_data ?clean) row = Fin 100"
    by (rule conjunct1)
  then have "map (reliability_score (master_data ?clean)) (master_data ?clean)
      = replicate (length (master_data ?clean)) (Fin 100)"
    by (simp add: map_replicate_const [symmetric])
  with h show ?thesis unfolding len by (simp add: numeral_2_eq_2)
qed


subsection \<open>Speed score\<close>

lemma col_min_present:
  "dropna_values col \<noteq> [] \<Longrightarrow> col_min col = Some (Min (set (dropna_values col)))"
  unfolding col_min_def
  by (cases "dropna_values col") (simp_all add: Min.set_eq_fold [symmetric])

lemma col_max_present:
  "dropna_values col \<noteq> [] \<Longrightarrow> col_max col = Some (Max (set (dropna_values col)))"
  unfolding col_max_def
  by (cases "dropna_values col") (simp_all add: Max.set_eq_fold [symmetric])

lemma dropna_values_set: "set (dropna_values col) = {v. Some v \<in> set col}"
  by (induction col) (auto simp: dropna_values_def List.map_filter_simps split: option.splits)

lemma master_data_avg_Some:
  assumes "row \<in> set (master_data clean)"
  shows "\<exists>v. avg_dispatch_sec row = Some v"
  unfolding master_data_row(3) [OF assms]
  using master_data_row(2) [OF assms] by (simp add: round_col_def mean_def)

lemma speed_score_extremes:
  assumes lo: "col_min (map avg_dispatch_sec master) = Some lo"
    and hi: "col_max (map avg_dispatch_sec master) = Some hi"
    and ne: "lo \<noteq> hi"
  shows "avg_dispatch_sec row = Some lo \<Longrightarrow> speed_score master row = Fin 100"
    and "avg_dispatch_sec row = Some hi \<Longrightarrow> speed_score master row = Fin 0"
  using ne by (simp_all add: speed_score_def lo hi of_float_def np_sub_def)

text \<open>
  Claim C9, as stated, evaluated where it fails. The two boroughs below have different mean
  dispatch times, 200.001 and 200.002 seconds, but the master table stores means rounded to
  two decimals, 200 for both, and the speed score is computed from the stored means: the
  range \<open>max - min\<close> is 0 and the score is NaN for both boroughs, neither 100 nor 0.
\<close>

theorem distinct_means_stored_equal_counterexample:
  "mean (map dispatch_response_seconds_qy (region_rows
       [\<lparr>borough = ''BRONX'', dispatch_response_seconds_qy = 200001 / 1000,
          incident_response_seconds_qy = None\<rparr>,
        \<lparr>borough = ''QUEENS'', dispatch_response_seconds_qy = 200002 / 1000,
          incident_response_seconds_qy = None\<rparr>] ''BRONX'')) = Some (200001 / 1000)
   \<and> mean (map dispatch_response_seconds_qy (region_rows
       [\<lparr>borough = ''BRONX'', dispatch_response_seconds_qy = 200001 / 1000,
          incident_response_seconds_qy = None\<rparr>,
        \<lparr>borough = ''QUEENS'', dispatch_response_seconds_qy = 200002 / 1000,
          incident_response_seconds_qy = None\<rparr>] ''QUEENS'')) = Some (200002 / 1000)
   \<and> mean (map dispatch_response_seconds_qy (region_rows
       [\<lparr>borough = ''BRONX'', dispatch_response_seconds_qy = 200001 / 1000,
          incident_response_seconds_qy = None\<rparr>,
        \<lparr>borough = ''QUEENS'', dispatch_response_seconds_qy = 200002 / 1000,
          incident_response_seconds_qy = None\<rparr>] ''BRONX''))
     \<noteq> mean (map dispatch_response_seconds_qy (region_rows
       [\<lparr>borough = ''BRONX'', dispatch_response_seconds_qy = 200001 / 1000,
          incident_response_seconds_qy = None\<rparr>,
        \<lparr>borough = ''QUEENS'', dispatch_response_seconds_qy = 200002 / 1000,
          incident_response_seconds_qy = None\<rparr>] ''QUEENS''))
   \<and> map m_borough (master_data
       [\<lparr>borough = ''BRONX'', dispatch_response_seconds_qy = 200001 / 1000,
          incident_response_seconds_qy = None\<rparr>,
        \<lparr>borough = ''QUEENS'', dispatch_response_seconds_qy = 200002 / 1000,
          incident_response_seconds_qy = None\<rparr>]) = [''BRONX'', ''QUEENS'']
   \<and> map avg_dispatch_sec (master_data
       [\<lparr>borough = ''BRONX'', dispatch_response_seconds_qy = 200001 / 1000,
          incident_response_seconds_qy = None\<rparr>,
        \<lparr>borough = ''QUEENS'', dispatch_response_seconds_qy = 200002 / 1000,
          incident_response_seconds_qy = None\<rparr>]) = [Some 200, Some 200]
   \<and> map (speed_score (master_data
       [\<lparr>borough = ''BRONX'', dispatch_response_seconds_qy = 200001 / 1000,
          incident_response_seconds_qy = None\<rparr>,
        \<lparr>borough = ''QUEENS'', dispatch_response_seconds_qy = 200002 / 1000,
          incident_response_seconds_qy = None\<rparr>]))
     (master_data
       [\<lparr>borough = ''BRONX'', dispatch_response_seconds_qy = 200001 / 1000,
          incident_response_seconds_qy = None\<rparr>,
        \<lparr>borough = ''QUEENS'', dispatch_response_seconds_qy = 200002 / 1000,
          incident_response_seconds_qy = None\<rparr>]) = [NaN, NaN]"
  by (simp add: region_rows_def master_data_def merge_on_borough_def merge_row_def borough_stats_def
      performance_metrics_def groupby_borough_def round_col_def times100_def bool_mean_def mean_def
      np_round_def round_half_even_def Let_def bool_sum_def dropna_values_def
      speed_score_def col_min_def col_max_def of_float_def np_sub_def signed_inf_def np_sign_def)

text \<open>
  Claim C9, amended to the means the master table stores. In any master table whose column
  of mean dispatch times holds two different numbers, a row whose stored mean is the
  smallest of the column has speed score 100 and a row whose stored mean is the largest has
  speed score 0; such rows exist. This holds whichever way the stored means were rounded;
  the master table of the script stores a mean in every row.
\<close>

theorem speed_score_100_at_min_0_at_max:
  assumes row: "row \<in> set master"
    and two: "\<exists>a\<in>set master. \<exists>b\<in>set master. \<exists>va vb.
                avg_dispatch_sec a = Some va \<and> avg_dispatch_sec b = Some vb \<and> va \<noteq> vb"
  shows "(avg_dispatch_sec row = col_min (map avg_dispatch_sec master)
            \<longrightarrow> speed_score master row = Fin 100)
       \<and> (avg_dispatch_sec row = col_max (map avg_dispatch_sec master)
            \<longrightarrow> speed_score master row = Fin 0)
       \<and> (\<exists>r\<in>set master. avg_dispatch_sec r = col_min (map avg_dispatch_sec master))
       \<and> (\<exists>r\<in>set master. avg_dispatch_sec r = col_max (map avg_dispatch_sec master))
       \<and> (\<forall>m\<in>set (master_data clean). \<exists>v. avg_dispatch_sec m = Some v)"
proof -
  let ?col = "map avg_dispatch_sec master"
  let ?vs = "dropna_values ?col"
  from two obtain a b va vb where ab: "a \<in> set master" "b \<in> set master"
    and v: "avg_dispatch_sec a = Some va" "avg_dispatch_sec b = Some vb" "va \<noteq> vb" by blast
  have mem: "va \<in> set ?vs" "vb \<in> set ?vs"
    using ab v by (force simp: dropna_values_set)+
  then have ne: "?vs \<noteq> []" by auto
  have lo: "col_min ?col = Some (Min (set ?vs))" using ne by (rule col_min_present)
  have hi: "col_max ?col = Some (Max (set ?vs))" using ne by (rule col_max_present)
  from mem have "Min (set ?vs) \<le> va" "Min (set ?vs) \<le> vb" "va \<le> Max (set ?vs)"
    "vb \<le> Max (set ?vs)" by simp_all
  with v(3) have diff: "Min (set ?vs) \<noteq> Max (set ?vs)" by linarith
  have "Min (set ?vs) \<in> set ?vs" using ne by (intro Min_in) simp_all
  then have exlo: "\<exists>r\<in>set master. avg_dispatch_sec r = col_min ?col"
    unfolding lo by (force simp: dropna_values_set)
  have "Max (set ?vs) \<in> set ?vs" using ne by (intro Max_in) simp_all
  then have exhi: "\<exists>r\<in>set master. avg_dispatch_sec r = col_max ?col"
    unfolding hi by (force simp: dropna_values_set)
  have all: "\<forall>m\<in>set (master_data clean). \<exists>v. avg_dispatch_sec m = Some v"
    using master_data_avg_Some [of _ clean] by blast
  from speed_score_extremes [OF lo hi diff, of row] exlo exhi all show ?thesis
    by (simp add: lo hi)
qed

theorem speed_score_100_at_min_0_at_max_witness:
  "hd (master_data
       [\<lparr>borough = ''BRONX'', dispatch_response_seconds_qy = 200, incident_response_seconds_qy = None\<rparr>,
        \<lparr>borough = ''QUEENS'', dispatch_response_seconds_qy = 700, incident_response_seconds_qy = None\<rparr>])
     \<in> set (master_data
       [\<lparr>borough = ''BRONX'', dispatch_response_seconds_qy = 200, incident_response_seconds_qy = None\<rparr>,
        \<lparr>borough = ''QUEENS'', dispatch_response_seconds_qy = 700, incident_response_seconds_qy = None\<rparr>])
   \<and> map avg_dispatch_sec (master_data
       [\<lparr>borough = ''BRONX'', dispatch_response_seconds_qy = 200, incident_response_seconds_qy = None\<rparr>,
        \<lparr>borough = ''QUEENS'', dispatch_response_seconds_qy = 700, incident_response_seconds_qy = None\<rparr>])
     = [Some 200, Some 700]
   \<and> speed_score (master_data
       [\<lparr>borough = ''BRONX'', dispatch_response_seconds_qy = 200, incident_response_seconds_qy = None\<rparr>,
        \<lparr>borough = ''QUEENS'', dispatch_response_seconds_qy = 700, incident_response_seconds_qy = None\<rparr>])
      (hd (master_data
       [\<lparr>borough = ''BRONX'', dispatch_response_seconds_qy = 200, incident_response_seconds_qy = None\<rparr>,
        \<lparr>borough = ''QUEENS'', dispatch_response_seconds_qy = 700, incident_response_seconds_qy = None\<rparr>]))
     = Fin 100
   \<and> speed_score (master_data
       [\<lparr>borough = ''BRONX'', dispatch_response_seconds_qy = 200, incident_response_seconds_qy = None\<rparr>,
        \<lparr>borough = ''QUEENS'', dispatch_response_seconds_qy = 700, incident_response_seconds_qy = None\<rparr>])
      (last (master_data
       [\<lparr>borough = ''BRONX'', dispatch_response_seconds_qy = 200, incident_response_seconds_qy = None\<rparr>,
        \<lparr>borough = ''QUEENS'', dispatch_response_seconds_qy = 700, incident_response_seconds_qy = None\<rparr>]))
     = Fin 0"
proof -
  let ?md = "(master_data
       [\<lparr>borough = ''BRONX'', dispatch_response_seconds_qy = 200, incident_response_seconds_qy = None\<rparr>,
        \<lparr>borough = ''QUEENS'', dispatch_response_seconds_qy = 700, incident_response_seconds_qy = None\<rparr>])"
  have avgs: "map avg_dispatch_sec ?md = [Some 200, Some 700]"
    by (simp add: master_data_def merge_on_borough_def merge_row_def borough_stats_def
        performance_metrics_def groupby_borough_def round_col_def mean_def np_round_def
        round_half_even_def Let_def)
  then have ne: "?md \<noteq> []" by auto
  have h: "hd ?md \<in> set ?md" and l: "last ?md \<in> set ?md" using ne by simp_all
  have ah: "avg_dispatch_sec (hd ?md) = Some 200"
    using arg_cong [OF avgs, of hd] ne by (simp add: hd_map)
  have al: "avg_dispatch_sec (last ?md) = Some 700"
    using arg_cong [OF avgs, of last] ne by (simp add: last_map)
  have two: "\<exists>a\<in>set ?md. \<exists>b\<in>set ?md. \<exists>va vb.
      avg_dispatch_sec a = Some va \<and> avg_dispatch_sec b = Some vb \<and> va \<noteq> vb"
    using h l ah al
    by (intro bexI [of _ "hd ?md"] bexI [of _ "last ?md"] exI [of _ 200] exI [of _ 700]) simp_all
  have lo: "col_min (map avg_dispatch_sec ?md) = Some 200"
    unfolding avgs by (simp add: col_min_def dropna_values_def List.map_filter_simps)
  have hi: "col_max (map avg_dispatch_sec ?md) = Some 700"
    unfolding avgs by (simp add: col_max_def dropna_values_def List.map_filter_simps)
  from speed_score_100_at_min_0_at_max [OF h two] ah lo
  have "speed_score ?md (hd ?md) = Fin 100" by simp
  moreover from speed_score_100_at_min_0_at_max [OF l two] al hi
  have "speed_score ?md (last ?md) = Fin 0" by simp
  ultimately show ?thesis using h avgs by simp
qed

subsection \<open>Bucket boundaries and the two bucket tables\<close>

lemma perf_bucket_None_iff: "perf_bucket r = None \<longleftrightarrow> \<not> 0 < dispatch_response_seconds_qy r"
  by (simp add: perf_bucket_def cut_def)

lemma perf_bucket_Excellent_iff:
  "perf_bucket r = Some Excellent \<longleftrightarrow>
     0 < dispatch_response_seconds_qy r \<and> dispatch_response_seconds_qy r \<le> 300"
  by (simp add: perf_bucket_def cut_def)

lemma perf_bucket_Good_iff:
  "perf_bucket r = Some Good \<longleftrightarrow>
     300 < dispatch_response_seconds_qy r \<and> dispatch_response_seconds_qy r \<le> 480"
  by (simp add: perf_bucket_def cut_def)

lemma count_list_map: "count_list (map f xs) y = length (filter (\<lambda>x. f x = y) xs)"
  by (induction xs) simp_all

lemma bucket_counts_iff:
  "(l, n) \<in> set (bucket_counts clean) \<longleftrightarrow> n = length (filter (\<lambda>x. perf_bucket x = Some l) clean)"
proof -
  have "l \<in> set categories" by (cases l) (simp_all add: categories_def)
  then show ?thesis
    by (auto simp: bucket_counts_def value_counts_def count_list_map)
qed

lemma zip_map_same: "zip xs (map f xs) = map (\<lambda>x. (x, f x)) xs"
  by (induction xs) simp_all

lemma sum_list_filter_zero:
  "(\<And>x. x \<in> set xs \<Longrightarrow> \<not> P x \<Longrightarrow> f x = (0::nat)) \<Longrightarrow>
     sum_list (map f (filter P xs)) = sum_list (map f xs)"
  by (induction xs) simp_all

lemma bucketed_counts_sum:
  assumes "\<forall>r\<in>set x. perf_bucket r \<noteq> None"
  shows "sum_list (map (\<lambda>l. count_list (map perf_bucket x) (Some l)) categories) = length x"
  using assms
proof (induction x)
  case Nil
  then show ?case by (simp add: categories_def)
next
  case (Cons r x)
  then obtain l where l: "perf_bucket r = Some l" by auto
  from Cons have "sum_list (map (\<lambda>l. count_list (map perf_bucket x) (Some l)) categories) = length x"
    by simp
  then show ?case using l by (cases l) (simp_all add: categories_def)
qed

lemma perf_by_borough_cell:
  assumes row: "(b, cells) \<in> set (perf_by_borough clean)" and cell: "(l, v) \<in> set cells"
  shows "v = Some (np_round 1
           (real (length (filter (\<lambda>r. perf_bucket r = Some l) (region_rows clean b)))
              / real (length (filter (\<lambda>r. perf_bucket r \<noteq> None) (region_rows clean b))) * 100))
         \<and> filter (\<lambda>r. perf_bucket r \<noteq> None) (region_rows clean b) \<noteq> []"
proof -
  define rows where "rows = filter (\<lambda>r. perf_bucket r \<noteq> None) clean"
  define cols where "cols = filter (\<lambda>l. Some l \<in> set (map perf_bucket rows)) categories"
  define x where "x = filter (\<lambda>r. borough r = b) rows"
  define cnt where "cnt = (\<lambda>l. count_list (map perf_bucket x) (Some l))"
  from row have bx: "(b, x) \<in> set (groupby_borough rows)"
    and cells: "cells = zip cols (map (\<lambda>v. round_col 1 (times100 v)) (normalize_index (map cnt cols)))"
    unfolding perf_by_borough_def Let_def rows_def [symmetric] cols_def [symmetric] x_def cnt_def
    by (auto simp: groupby_borough_def)
  have xne: "x \<noteq> []" using bx by (rule groupby_borough_nonempty)
  have xrows: "set x \<subseteq> set rows" by (auto simp: x_def)
  have allb: "\<forall>r\<in>set x. perf_bucket r \<noteq> None" using xrows by (auto simp: rows_def)
  have "sum_list (map cnt cols) = sum_list (map cnt categories)"
    unfolding cols_def
  proof (rule sum_list_filter_zero)
    fix l assume "\<not> Some l \<in> set (map perf_bucket rows)"
    then have "\<not> Some l \<in> set (map perf_bucket x)" using xrows by auto
    then show "cnt l = 0" by (simp add: cnt_def)
  qed
  also have "\<dots> = length x" unfolding cnt_def using allb by (rule bucketed_counts_sum)
  finally have total: "sum_list (map cnt cols) = length x" .
  have "cells = map (\<lambda>l. (l, Some (np_round 1 (real (cnt l) / real (length x) * 100)))) cols"
    unfolding cells normalize_index_def total using xne
    by (simp add: zip_map_same [symmetric] round_col_def times100_def comp_def)
  with cell have v: "v = Some (np_round 1 (real (cnt l) / real (length x) * 100))" by auto
  have x': "x = filter (\<lambda>r. perf_bucket r \<noteq> None) (region_rows clean b)"
    unfolding x_def rows_def region_rows_def by (simp add: conj_commute)
  have "cnt l = length (filter (\<lambda>r. perf_bucket r = Some l) (region_rows clean b))"
    unfolding cnt_def count_list_map x'
    by (simp add: conj_commute cong: conj_cong)
  with v xne x' show ?thesis by simp
qed


lemma master_data_has_row:
  assumes "b \<in> borough ` set clean"
  shows "\<exists>row\<in>set (master_data clean). m_borough row = b"
proof -
  let ?x = "filter (\<lambda>r. borough r = b) clean"
  have bx: "(b, ?x) \<in> set (groupby_borough clean)"
    using assms by (simp add: groupby_borough_iff)
  define S :: "string \<times> incident list \<Rightarrow> borough_stats_row" where "S = (\<lambda>(b, x).
            let d = map dispatch_response_seconds_qy x;
                i = dropna_values (map incident_response_seconds_qy x) in
            \<lparr>bs_borough = b,
             bs_avg_dispatch_sec = round_col 2 (mean d),
             bs_median_dispatch_sec = round_col 2 (median d),
             bs_std_dispatch = round_col 2 (std d),
             bs_total_calls = length d,
             bs_avg_incident_sec = round_col 2 (mean i),
             bs_median_incident = round_col 2 (median i)\<rparr>)"
  define P :: "string \<times> incident list \<Rightarrow> performance_metrics_row" where "P = (\<lambda>(b, x).
            let d = map dispatch_response_seconds_qy x in
            \<lparr>pm_borough = b,
             pm_meets_5min = round_col 2 (times100 (bool_mean (map (\<lambda>v. v \<le> 300) d))),
             pm_meets_8min = round_col 2 (times100 (bool_mean (map (\<lambda>v. v \<le> 480) d))),
             pm_extreme_delays = bool_sum (map (\<lambda>v. 600 < v) d)\<rparr>)"
  have bs: "borough_stats clean = map S (groupby_borough clean)"
    unfolding borough_stats_def S_def ..
  have pm: "performance_metrics clean = map P (groupby_borough clean)"
    unfolding performance_metrics_def P_def ..
  have s: "S (b, ?x) \<in> set (borough_stats clean)" unfolding bs using bx by simp
  have p: "P (b, ?x) \<in> set (performance_metrics clean)" unfolding pm using bx by simp
  have sb: "bs_borough (S (b, ?x)) = b" by (simp add: S_def Let_def)
  have pb: "pm_borough (P (b, ?x)) = b" by (simp add: P_def Let_def)
  have "merge_row (S (b, ?x)) (P (b, ?x)) \<in> set (master_data clean)"
    unfolding master_data_def merge_on_borough_def using s p sb pb
    by (auto intro!: bexI [of _ "S (b, ?x)"] image_eqI [of _ _ "P (b, ?x)"])
  moreover have "m_borough (merge_row (S (b, ?x)) (P (b, ?x))) = b"
    by (simp add: merge_row_def sb)
  ultimately show ?thesis by blast
qed

lemma within_300_iff_bucket:
  "dispatch_response_seconds_qy x \<le> 300
     \<longleftrightarrow> perf_bucket x = Some Excellent \<or> perf_bucket x = None"
  by (auto simp: perf_bucket_def cut_def)

lemma within_480_iff_bucket:
  "dispatch_response_seconds_qy x \<le> 480
     \<longleftrightarrow> perf_bucket x = Some Excellent \<or> perf_bucket x = Some Good \<or> perf_bucket x = None"
  by (auto simp: perf_bucket_def cut_def)

lemma compliance_rates_by_bucket:
  assumes "row \<in> set (master_data clean)"
  shows "meets_5min row =
           round_col 2 (times100 (bool_mean (map
             (\<lambda>x. perf_bucket x = Some Excellent \<or> perf_bucket x = None)
             (region_rows clean (m_borough row)))))"
    and "meets_8min row =
           round_col 2 (times100 (bool_mean (map
             (\<lambda>x. perf_bucket x = Some Excellent \<or> perf_bucket x = Some Good
                    \<or> perf_bucket x = None)
             (region_rows clean (m_borough row)))))"
proof -
  have five: "map (\<lambda>v. v \<le> 300) (map dispatch_response_seconds_qy xs)
      = map (\<lambda>x. perf_bucket x = Some Excellent \<or> perf_bucket x = None) xs" for xs
    by (induction xs) (simp_all add: within_300_iff_bucket)
  have eight: "map (\<lambda>v. v \<le> 480) (map dispatch_response_seconds_qy xs)
      = map (\<lambda>x. perf_bucket x = Some Excellent \<or> perf_bucket x = Some Good
                   \<or> perf_bucket x = None) xs" for xs
    by (induction xs) (simp_all add: within_480_iff_bucket)
  show "meets_5min row =
           round_col 2 (times100 (bool_mean (map
             (\<lambda>x. perf_bucket x = Some Excellent \<or> perf_bucket x = None)
             (region_rows clean (m_borough row)))))"
    unfolding master_data_row(8) [OF assms] five ..
  show "meets_8min row =
           round_col 2 (times100 (bool_mean (map
             (\<lambda>x. perf_bucket x = Some Excellent \<or> perf_bucket x = Some Good
                    \<or> perf_bucket x = None)
             (region_rows clean (m_borough row)))))"
    unfolding master_data_row(9) [OF assms] eight ..
qed

text \<open>
  Claim C4. A surviving incident with a positive dispatch time is in the first bucket
  exactly when its dispatch time is at most 300 seconds and in one of the first two buckets
  exactly when it is at most 480 seconds. The compliance rates of the master table count by
  the same boundaries: in every row \<^verbatim>\<open>meets_5min\<close> is the rounded percentage of the
  borough's incidents that are in the first bucket or in no bucket (a dispatch time that is
  not positive), and \<^verbatim>\<open>meets_8min\<close> that of the incidents in the first two buckets or in
  none; where all dispatch times of the borough are positive these are the percentages of
  the incidents in the first bucket and in the first two buckets. The incident's borough
  has such a row. Both bucket tables use the one classification: the count of a label in
  the bucket-count table is the number of surviving incidents classified with it, every
  cell of the per-borough share table is the share, in percent and rounded to one decimal,
  of the incidents so classified among the bucketed incidents of the borough, and the
  incident has a cell in the row of its borough.
\<close>

theorem bucket_boundaries_match_compliance:
  assumes "r \<in> set clean" and "0 < dispatch_response_seconds_qy r"
  shows "(perf_bucket r = Some Excellent \<longleftrightarrow> dispatch_response_seconds_qy r \<le> 300)
       \<and> (perf_bucket r = Some Excellent \<or> perf_bucket r = Some Good
            \<longleftrightarrow> dispatch_response_seconds_qy r \<le> 480)
       \<and> (\<forall>l n. (l, n) \<in> set (bucket_counts clean)
            \<longleftrightarrow> n = length (filter (\<lambda>x. perf_bucket x = Some l) clean))
       \<and> (\<forall>b cells l v. (b, cells) \<in> set (perf_by_borough clean) \<and> (l, v) \<in> set cells \<longrightarrow>
            v = Some (np_round 1
              (real (length (filter (\<lambda>x. perf_bucket x = Some l) (region_rows clean b)))
                / real (length (filter (\<lambda>x. perf_bucket x \<noteq> None) (region_rows clean b))) * 100)))
       \<and> (\<exists>cells v. (borough r, cells) \<in> set (perf_by_borough clean)
            \<and> (the (perf_bucket r), v) \<in> set cells)
       \<and> (\<exists>row\<in>set (master_data clean). m_borough row = borough r)
       \<and> (\<forall>row\<in>set (master_data clean).
            meets_5min row =
              round_col 2 (times100 (bool_mean (map
                (\<lambda>x. perf_bucket x = Some Excellent \<or> perf_bucket x = None)
                (region_rows clean (m_borough row)))))
            \<and> meets_8min row =
              round_col 2 (times100 (bool_mean (map
                (\<lambda>x. perf_bucket x = Some Excellent \<or> perf_bucket x = Some Good
                       \<or> perf_bucket x = None)
                (region_rows clean (m_borough row))))))
       \<and> (\<forall>row\<in>set (master_data clean).
            (\<forall>x\<in>set (region_rows clean (m_borough row)). 0 < dispatch_response_seconds_qy x) \<longrightarrow>
            meets_5min row =
              round_col 2 (times100 (bool_mean (map
                (\<lambda>x. perf_bucket x = Some Excellent)
                (region_rows clean (m_borough row)))))
            \<and> meets_8min row =
              round_col 2 (times100 (bool_mean (map
                (\<lambda>x. perf_bucket x = Some Excellent \<or> perf_bucket x = Some Good)
                (region_rows clean (m_borough row))))))"
proof -
  have a: "perf_bucket r = Some Excellent \<longleftrightarrow> dispatch_response_seconds_qy r \<le> 300"
    using assms(2) by (simp add: perf_bucket_Excellent_iff)
  have b: "perf_bucket r = Some Excellent \<or> perf_bucket r = Some Good
            \<longleftrightarrow> dispatch_response_seconds_qy r \<le> 480"
    using assms(2) by (auto simp: perf_bucket_Excellent_iff perf_bucket_Good_iff)
  have c: "\<forall>l n. (l, n) \<in> set (bucket_counts clean)
            \<longleftrightarrow> n = length (filter (\<lambda>x. perf_bucket x = Some l) clean)"
    by (simp add: bucket_counts_iff)
  have d: "\<forall>b cells l v. (b, cells) \<in> set (perf_by_borough clean) \<and> (l, v) \<in> set cells \<longrightarrow>
            v = Some (np_round 1
              (real (length (filter (\<lambda>x. perf_bucket x = Some l) (region_rows clean b)))
                / real (length (filter (\<lambda>x. perf_bucket x \<noteq> None) (region_rows clean b))) * 100))"
    using perf_by_borough_cell [of _ _ clean] by (intro allI impI) (elim conjE, simp)
  obtain l where l: "perf_bucket r = Some l"
    using assms(2) perf_bucket_None_iff [of r] by (cases "perf_bucket r") auto
  define rows where "rows = filter (\<lambda>r. perf_bucket r \<noteq> None) clean"
  define cols where "cols = filter (\<lambda>l. Some l \<in> set (map perf_bucket rows)) categories"
  have rr: "r \<in> set rows" using assms(1) l by (simp add: rows_def)
  have "l \<in> set categories" by (cases l) (simp_all add: categories_def)
  then have lc: "l \<in> set cols" using rr l by (force simp: cols_def)
  have "borough r \<in> borough ` set rows" using rr by simp
  then have bx: "(borough r, filter (\<lambda>q. borough q = borough r) rows) \<in> set (groupby_borough rows)"
    by (simp add: groupby_borough_iff)
  define cells where "cells = zip cols (map (\<lambda>v. round_col 1 (times100 v))
      (normalize_index (map (\<lambda>l. count_list (map perf_bucket (filter (\<lambda>q. borough q = borough r) rows)) (Some l)) cols)))"
  have dom: "map fst cells = cols"
    unfolding cells_def by (simp add: normalize_index_def)
  define F :: "string \<times> incident list \<Rightarrow> string \<times> (perf_label \<times> real option) list"
    where "F = (\<lambda>(b, x). (b, zip cols (map (\<lambda>v. round_col 1 (times100 v))
      (normalize_index (map (\<lambda>l. count_list (map perf_bucket x) (Some l)) cols)))))"
  have "F (borough r, filter (\<lambda>q. borough q = borough r) rows) \<in> F ` set (groupby_borough rows)"
    using bx by (rule imageI)
  then have "F (borough r, filter (\<lambda>q. borough q = borough r) rows) \<in> set (map F (groupby_borough rows))"
    by (simp only: set_map)
  moreover have "perf_by_borough clean = map F (groupby_borough rows)"
    unfolding perf_by_borough_def Let_def rows_def [symmetric] cols_def [symmetric] F_def ..
  ultimately have "F (borough r, filter (\<lambda>q. borough q = borough r) rows) \<in> set (perf_by_borough clean)"
    by simp
  then have cells: "(borough r, cells) \<in> set (perf_by_borough clean)"
    unfolding cells_def F_def by simp
  from lc have "l \<in> set (map fst cells)" unfolding dom .
  then obtain v where lv: "(l, v) \<in> set cells" by auto
  have e: "\<exists>cells v. (borough r, cells) \<in> set (perf_by_borough clean)
            \<and> (the (perf_bucket r), v) \<in> set cells"
    using cells lv l by (intro exI [of _ cells] exI [of _ v]) simp
  have "borough r \<in> borough ` set clean" using assms(1) by (rule imageI)
  then have f: "\<exists>row\<in>set (master_data clean). m_borough row = borough r"
    by (rule master_data_has_row)
  have g: "\<forall>row\<in>set (master_data clean).
            meets_5min row =
              round_col 2 (times100 (bool_mean (map
                (\<lambda>x. perf_bucket x = Some Excellent \<or> perf_bucket x = None)
                (region_rows clean (m_borough row)))))
            \<and> meets_8min row =
              round_col 2 (times100 (bool_mean (map
                (\<lambda>x. perf_bucket x = Some Excellent \<or> perf_bucket x = Some Good
                       \<or> perf_bucket x = None)
                (region_rows clean (m_borough row)))))"
    using compliance_rates_by_bucket [of _ clean] by (intro ballI conjI)
  have h: "\<forall>row\<in>set (master_data clean).
            (\<forall>x\<in>set (region_rows clean (m_borough row)). 0 < dispatch_response_seconds_qy x) \<longrightarrow>
            meets_5min row =
              round_col 2 (times100 (bool_mean (map
                (\<lambda>x. perf_bucket x = Some Excellent)
                (region_rows clean (m_borough row)))))
            \<and> meets_8min row =
              round_col 2 (times100 (bool_mean (map
                (\<lambda>x. perf_bucket x = Some Excellent \<or> perf_bucket x = Some Good)
                (region_rows clean (m_borough row)))))"
  proof (intro ballI impI)
    fix row
    assume row: "row \<in> set (master_data clean)"
      and pos: "\<forall>x\<in>set (region_rows clean (m_borough row)). 0 < dispatch_response_seconds_qy x"
    have none: "\<forall>x\<in>set (region_rows clean (m_borough row)). perf_bucket x \<noteq> None"
      using pos by (simp add: perf_bucket_None_iff)
    have m5: "map (\<lambda>x. perf_bucket x = Some Excellent \<or> perf_bucket x = None)
          (region_rows clean (m_borough row))
        = map (\<lambda>x. perf_bucket x = Some Excellent) (region_rows clean (m_borough row))"
      using none by (intro map_cong refl) auto
    have m8: "map (\<lambda>x. perf_bucket x = Some Excellent \<or> perf_bucket x = Some Good
            \<or> perf_bucket x = None) (region_rows clean (m_borough row))
        = map (\<lambda>x. perf_bucket x = Some Excellent \<or> perf_bucket x = Some Good)
            (region_rows clean (m_borough row))"
      using none by (intro map_cong refl) auto
    show "meets_5min row =
              round_col 2 (times100 (bool_mean (map
                (\<lambda>x. perf_bucket x = Some Excellent)
                (region_rows clean (m_borough row)))))
            \<and> meets_8min row =
              round_col 2 (times100 (bool_mean (map
                (\<lambda>x. perf_bucket x = Some Excellent \<or> perf_bucket x = Some Good)
                (region_rows clean (m_borough row)))))"
      using compliance_rates_by_bucket [OF row] unfolding m5 m8 by (intro conjI)
  qed
  show ?thesis
    by (rule conjI [OF a conjI [OF b conjI [OF c conjI [OF d conjI [OF e
          conjI [OF f conjI [OF g h]]]]]]])
qed

theorem bucket_boundaries_match_compliance_witness:
  "\<lparr>borough = ''BRONX'', dispatch_response_seconds_qy = 300, incident_response_seconds_qy = None\<rparr>
     \<in> set [\<lparr>borough = ''BRONX'', dispatch_response_seconds_qy = 300, incident_response_seconds_qy = None\<rparr>,
            \<lparr>borough = ''BRONX'', dispatch_response_seconds_qy = 480, incident_response_seconds_qy = None\<rparr>,
            \<lparr>borough = ''BRONX'', dispatch_response_seconds_qy = 481, incident_response_seconds_qy = None\<rparr>,
            \<lparr>borough = ''BRONX'', dispatch_response_seconds_qy = 700, incident_response_seconds_qy = None\<rparr>]
   \<and> 0 < dispatch_response_seconds_qy
       \<lparr>borough = ''BRONX'', dispatch_response_seconds_qy = 300, incident_response_seconds_qy = None\<rparr>
   \<and> perf_bucket
       \<lparr>borough = ''BRONX'', dispatch_response_seconds_qy = 300, incident_response_seconds_qy = None\<rparr>
     = Some Excellent
   \<and> (Excellent, 1) \<in> set (bucket_counts
           [\<lparr>borough = ''BRONX'', dispatch_response_seconds_qy = 300, incident_response_seconds_qy = None\<rparr>,
            \<lparr>borough = ''BRONX'', dispatch_response_seconds_qy = 480, incident_response_seconds_qy = None\<rparr>,
            \<lparr>borough = ''BRONX'', dispatch_response_seconds_qy = 481, incident_response_seconds_qy = None\<rparr>,
            \<lparr>borough = ''BRONX'', dispatch_response_seconds_qy = 700, incident_response_seconds_qy = None\<rparr>])
   \<and> (Good, 1) \<in> set (bucket_counts
           [\<lparr>borough = ''BRONX'', dispatch_response_seconds_qy = 300, incident_response_seconds_qy = None\<rparr>,
            \<lparr>borough = ''BRONX'', dispatch_response_seconds_qy = 480, incident_response_seconds_qy = None\<rparr>,
            \<lparr>borough = ''BRONX'', dispatch_response_seconds_qy = 481, incident_response_seconds_qy = None\<rparr>,
            \<lparr>borough = ''BRONX'', dispatch_response_seconds_qy = 700, incident_response_seconds_qy = None\<rparr>])
   \<and> map m_borough (master_data
           [\<lparr>borough = ''BRONX'', dispatch_response_seconds_qy = 300, incident_response_seconds_qy = None\<rparr>,
            \<lparr>borough = ''BRONX'', dispatch_response_seconds_qy = 480, incident_response_seconds_qy = None\<rparr>,
            \<lparr>borough = ''BRONX'', dispatch_response_seconds_qy = 481, incident_response_seconds_qy = None\<rparr>,
            \<lparr>borough = ''BRONX'', dispatch_response_seconds_qy = 700, incident_response_seconds_qy = None\<rparr>]) = [''BRONX'']
   \<and> meets_5min (hd (master_data
           [\<lparr>borough = ''BRONX'', dispatch_response_seconds_qy = 300, incident_response_seconds_qy = None\<rparr>,
            \<lparr>borough = ''BRONX'', dispatch_response_seconds_qy = 480, incident_response_seconds_qy = None\<rparr>,
            \<lparr>borough = ''BRONX'', dispatch_response_seconds_qy = 481, incident_response_seconds_qy = None\<rparr>,
            \<lparr>borough = ''BRONX'', dispatch_response_seconds_qy = 700, incident_response_seconds_qy = None\<rparr>])) = Some 25
   \<and> meets_8min (hd (master_data
           [\<lparr>borough = ''BRONX'', dispatch_response_seconds_qy = 300, incident_response_seconds_qy = None\<rparr>,
            \<lparr>borough = ''BRONX'', dispatch_response_seconds_qy = 480, incident_response_seconds_qy = None\<rparr>,
            \<lparr>borough = ''BRONX'', dispatch_response_seconds_qy = 481, incident_response_seconds_qy = None\<rparr>,
            \<lparr>borough = ''BRONX'', dispatch_response_seconds_qy = 700, incident_response_seconds_qy = None\<rparr>])) = Some 50"
proof -
  let ?r = "\<lparr>borough = ''BRONX'', dispatch_response_seconds_qy = 300, incident_response_seconds_qy = None\<rparr>"
  let ?clean = "[\<lparr>borough = ''BRONX'', dispatch_response_seconds_qy = 300, incident_response_seconds_qy = None\<rparr>,
            \<lparr>borough = ''BRONX'', dispatch_response_seconds_qy = 480, incident_response_seconds_qy = None\<rparr>,
            \<lparr>borough = ''BRONX'', dispatch_response_seconds_qy = 481, incident_response_seconds_qy = None\<rparr>,
            \<lparr>borough = ''BRONX'', dispatch_response_seconds_qy = 700, incident_response_seconds_qy = None\<rparr>]"
  let ?md = "master_data ?clean"
  have h1: "?r \<in> set ?clean" by simp
  have h2: "0 < dispatch_response_seconds_qy ?r" by simp
  note t = bucket_boundaries_match_compliance [OF h1 h2]
  from t have a: "perf_bucket ?r = Some Excellent \<longleftrightarrow> dispatch_response_seconds_qy ?r \<le> 300"
    by (rule conjunct1)
  then have a': "perf_bucket ?r = Some Excellent" by simp
  from t have c: "\<forall>l n. (l, n) \<in> set (bucket_counts ?clean)
            \<longleftrightarrow> n = length (filter (\<lambda>x. perf_bucket x = Some l) ?clean)"
    by (elim conjE)
  have e: "(Excellent, 1) \<in> set (bucket_counts ?clean)"
    unfolding c [rule_format] by (simp add: perf_bucket_def cut_def)
  have g: "(Good, 1) \<in> set (bucket_counts ?clean)"
    unfolding c [rule_format] by (simp add: perf_bucket_def cut_def)
  have names: "map m_borough ?md = [''BRONX'']"
    by (simp add: master_data_def merge_on_borough_def merge_row_def borough_stats_def
        performance_metrics_def groupby_borough_def Let_def)
  then have ne: "?md \<noteq> []" by auto
  then have mem: "hd ?md \<in> set ?md" by (rule hd_in_set)
  have mb: "m_borough (hd ?md) = ''BRONX''"
    using arg_cong [OF names, of hd] ne by (simp add: hd_map)
  have rows: "region_rows ?clean ''BRONX'' = ?clean" by (simp add: region_rows_def)
  from t have "\<forall>row\<in>set ?md.
            (\<forall>x\<in>set (region_rows ?clean (m_borough row)). 0 < dispatch_response_seconds_qy x) \<longrightarrow>
            meets_5min row =
              round_col 2 (times100 (bool_mean (map
                (\<lambda>x. perf_bucket x = Some Excellent)
                (region_rows ?clean (m_borough row)))))
            \<and> meets_8min row =
              round_col 2 (times100 (bool_mean (map
                (\<lambda>x. perf_bucket x = Some Excellent \<or> perf_bucket x = Some Good)
                (region_rows ?clean (m_borough row)))))"
    by (elim conjE)
  from bspec [OF this mem]
  have "(\<forall>x\<in>set (region_rows ?clean ''BRONX''). 0 < dispatch_response_seconds_qy x) \<longrightarrow>
            meets_5min (hd ?md) =
              round_col 2 (times100 (bool_mean (map
                (\<lambda>x. perf_bucket x = Some Excellent) (region_rows ?clean ''BRONX''))))
            \<and> meets_8min (hd ?md) =
              round_col 2 (times100 (bool_mean (map
                (\<lambda>x. perf_bucket x = Some Excellent \<or> perf_bucket x = Some Good)
                (region_rows ?clean ''BRONX''))))"
    unfolding mb .
  moreover have "\<forall>x\<in>set (region_rows ?clean ''BRONX''). 0 < dispatch_response_seconds_qy x"
    unfolding rows by simp
  ultimately have rates: "meets_5min (hd ?md) = Some 25 \<and> meets_8min (hd ?md) = Some 50"
    unfolding rows
    by (simp add: perf_bucket_def cut_def round_col_def times100_def bool_mean_def mean_def
        np_round_def round_half_even_def Let_def)
  show ?thesis
    by (rule conjI [OF h1 conjI [OF h2 conjI [OF a' conjI [OF e conjI [OF g
          conjI [OF names rates]]]]]])
qed

subsection \<open>Records without an incident response time\<close>







subsection \<open>Correlation matrix\<close>

text \<open>
  The running sum of squared deviations is never negative, and it is zero only when all
  values seen so far are equal (to the running mean).
\<close>

lemma foldl_welford_snoc:
  "foldl welford_step w (ps @ [p]) = welford_step (foldl welford_step w ps) p"
  by simp

lemma welford_x_invariant:
  fixes ps :: "(real option \<times> real option) list"
  defines "w \<equiv> foldl welford_step welford_init ps"
  defines "vs \<equiv> List.map_filter (\<lambda>p. case p of (Some vx, Some vy) \<Rightarrow> Some vx | _ \<Rightarrow> None) ps"
  shows "nobs w = length vs \<and> 0 \<le> ssqdm_x w \<and> (ssqdm_x w = 0 \<longrightarrow> (\<forall>v\<in>set vs. v = meanx w))"
  unfolding w_def vs_def
proof (induction ps rule: rev_induct)
  case Nil
  show ?case by (simp add: welford_init_def List.map_filter_simps)
next
  case (snoc p ps)
  let ?w = "foldl welford_step welford_init ps"
  let ?g = "\<lambda>p. case p of (Some vx, Some vy) \<Rightarrow> Some vx | _ \<Rightarrow> None"
  let ?vs = "List.map_filter ?g ps"
  from snoc have n: "nobs ?w = length ?vs" and nn: "0 \<le> ssqdm_x ?w"
    and z: "ssqdm_x ?w = 0 \<Longrightarrow> \<forall>v\<in>set ?vs. v = meanx ?w" by auto
  show ?case
  proof (cases "\<exists>vx vy. p = (Some vx, Some vy)")
    case False
    then have step: "welford_step ?w p = ?w"
      by (cases p) (auto simp: welford_step_def split: option.splits)
    from False have "?g p = None" by (cases p) (auto split: option.splits)
    then have "List.map_filter ?g (ps @ [p]) = ?vs"
      by (simp add: List.map_filter_def)
    with step n nn z show ?thesis by (simp del: foldl_append add: foldl_welford_snoc)
  next
    case True
    then obtain vx vy where p: "p = (Some vx, Some vy)" by blast
    define k where "k = real (nobs ?w + 1)"
    define dx where "dx = vx - meanx ?w"
    have kpos: "1 \<le> k" by (simp add: k_def)
    have mx: "meanx (welford_step ?w p) = meanx ?w + 1 / k * dx"
      and sx: "ssqdm_x (welford_step ?w p) = ssqdm_x ?w + (vx - (meanx ?w + 1 / k * dx)) * dx"
      and nx: "nobs (welford_step ?w p) = nobs ?w + 1"
      by (simp_all add: welford_step_def p Let_def k_def dx_def)
    have inc: "(vx - (meanx ?w + 1 / k * dx)) * dx = dx * dx * ((k - 1) / k)"
      using kpos by (simp add: dx_def field_simps)
    have incnn: "0 \<le> dx * dx * ((k - 1) / k)"
      using kpos by (intro mult_nonneg_nonneg divide_nonneg_nonneg zero_le_square) simp_all
    have vs': "List.map_filter ?g (ps @ [p]) = ?vs @ [vx]"
      by (simp add: List.map_filter_def p)
    have a: "nobs (welford_step ?w p) = length (?vs @ [vx])" using nx n by simp
    have b: "0 \<le> ssqdm_x (welford_step ?w p)" unfolding sx inc using nn incnn by simp
    have c: "\<forall>v\<in>set (?vs @ [vx]). v = meanx (welford_step ?w p)"
      if zero: "ssqdm_x (welford_step ?w p) = 0"
    proof -
      from zero nn incnn have s0: "ssqdm_x ?w = 0" and i0: "dx * dx * ((k - 1) / k) = 0"
        unfolding sx inc by linarith+
      from z [OF s0] have old: "\<forall>v\<in>set ?vs. v = meanx ?w" .
      show ?thesis
      proof (cases "dx = 0")
        case True
        then have "meanx (welford_step ?w p) = meanx ?w" and "vx = meanx ?w"
          unfolding mx by (simp_all add: dx_def)
        with old show ?thesis by simp
      next
        case False
        with i0 kpos have "k = 1" by simp
        then have "nobs ?w = 0" by (simp add: k_def)
        with n have "?vs = []" by simp
        moreover have "meanx (welford_step ?w p) = vx"
          unfolding mx using \<open>k = 1\<close> by (simp add: dx_def)
        ultimately show ?thesis by simp
      qed
    qed
    from a b c show ?thesis
      unfolding foldl_welford_snoc vs' by blast
  qed
qed


lemma welford_diag:
  "meanx (foldl welford_step welford_init (zip col col))
     = meany (foldl welford_step welford_init (zip col col))
   \<and> ssqdm_y (foldl welford_step welford_init (zip col col))
     = ssqdm_x (foldl welford_step welford_init (zip col col))
   \<and> covxy (foldl welford_step welford_init (zip col col))
     = ssqdm_x (foldl welford_step welford_init (zip col col))"
proof (induction col rule: rev_induct)
  case Nil
  show ?case by (simp add: welford_init_def)
next
  case (snoc v col)
  have "zip (col @ [v]) (col @ [v]) = zip col col @ [(v, v)]" by simp
  then show ?case using snoc
    by (cases v) (simp_all add: welford_step_def Let_def)
qed

lemma zip_same_seen:
  "List.map_filter (\<lambda>p. case p of (Some vx, Some vy) \<Rightarrow> Some vx | _ \<Rightarrow> None) (zip col col)
     = dropna_values col"
  by (induction col) (auto simp: dropna_values_def List.map_filter_simps split: option.splits)

lemma nancorr_pair_diag:
  assumes "\<not> constant_col col"
  shows "nancorr_pair col col = Some 1"
proof -
  let ?w = "foldl welford_step welford_init (zip col col)"
  from welford_x_invariant [of "zip col col"]
  have n: "nobs ?w = length (dropna_values col)" and nn: "0 \<le> ssqdm_x ?w"
    and z: "ssqdm_x ?w = 0 \<Longrightarrow> \<forall>v\<in>set (dropna_values col). v = meanx ?w"
    unfolding zip_same_seen by auto
  from assms obtain a b where ab: "a \<in> set (dropna_values col)" "b \<in> set (dropna_values col)"
    "a \<noteq> b" by (auto simp: constant_col_def)
  have s0: "ssqdm_x ?w \<noteq> 0"
  proof
    assume "ssqdm_x ?w = 0"
    from z [OF this] ab(1,2) have "a = meanx ?w" "b = meanx ?w" by blast+
    with ab(3) show False by simp
  qed
  have pos: "\<not> nobs ?w < 1" using n ab(1) by (cases "dropna_values col") auto
  from welford_diag [of col] have sy: "ssqdm_y ?w = ssqdm_x ?w" and cv: "covxy ?w = ssqdm_x ?w"
    by simp_all
  have root: "sqrt (ssqdm_x ?w * ssqdm_x ?w) = ssqdm_x ?w" using nn by simp
  show ?thesis
    unfolding nancorr_pair_def Let_def sy cv root using pos s0
    by (simp add: clip_unit_def)
qed

lemma welford_step_Some:
  "welford_step w (Some vx, Some vy) =
     \<lparr>nobs = nobs w + 1,
      meanx = meanx w + 1 / real (nobs w + 1) * (vx - meanx w),
      meany = meany w + 1 / real (nobs w + 1) * (vy - meany w),
      ssqdm_x = ssqdm_x w + (vx - (meanx w + 1 / real (nobs w + 1) * (vx - meanx w))) * (vx - meanx w),
      ssqdm_y = ssqdm_y w + (vy - (meany w + 1 / real (nobs w + 1) * (vy - meany w))) * (vy - meany w),
      covxy = covxy w + (vx - (meanx w + 1 / real (nobs w + 1) * (vx - meanx w))) * (vy - meany w)\<rparr>"
  by (simp add: welford_step_def Let_def)

lemma welford_const_x:
  assumes "\<forall>p\<in>set ps. \<forall>v. fst p = Some v \<longrightarrow> v = c"
  shows "ssqdm_x (foldl welford_step welford_init ps) = 0
       \<and> (nobs (foldl welford_step welford_init ps) = 0
              \<and> meanx (foldl welford_step welford_init ps) = 0
            \<or> 0 < nobs (foldl welford_step welford_init ps)
              \<and> meanx (foldl welford_step welford_init ps) = c)"
  using assms
proof (induction ps rule: rev_induct)
  case Nil
  show ?case by (simp add: welford_init_def)
next
  case (snoc p ps)
  define w where "w = foldl welford_step welford_init ps"
  from snoc have ih: "ssqdm_x w = 0"
    "nobs w = 0 \<and> meanx w = 0 \<or> 0 < nobs w \<and> meanx w = c" by (auto simp: w_def)
  have "ssqdm_x (welford_step w p) = 0
       \<and> (nobs (welford_step w p) = 0 \<and> meanx (welford_step w p) = 0
            \<or> 0 < nobs (welford_step w p) \<and> meanx (welford_step w p) = c)"
  proof (cases "\<exists>vx vy. p = (Some vx, Some vy)")
    case False
    then have "welford_step w p = w"
      by (cases p) (auto simp: welford_step_def split: option.splits)
    with ih show ?thesis by simp
  next
    case True
    then obtain vx vy where p: "p = (Some vx, Some vy)" by blast
    with snoc.prems have v: "vx = c" by simp
    from ih(2) show ?thesis
    proof
      assume "nobs w = 0 \<and> meanx w = 0"
      then show ?thesis using ih(1) unfolding p welford_step_Some by (simp add: v)
    next
      assume "0 < nobs w \<and> meanx w = c"
      then show ?thesis using ih(1) unfolding p welford_step_Some by (simp add: v)
    qed
  qed
  then show ?case unfolding foldl_welford_snoc w_def .
qed

lemma welford_const_y:
  assumes "\<forall>p\<in>set ps. \<forall>v. snd p = Some v \<longrightarrow> v = c"
  shows "ssqdm_y (foldl welford_step welford_init ps) = 0
       \<and> (nobs (foldl welford_step welford_init ps) = 0
              \<and> meany (foldl welford_step welford_init ps) = 0
            \<or> 0 < nobs (foldl welford_step welford_init ps)
              \<and> meany (foldl welford_step welford_init ps) = c)"
  using assms
proof (induction ps rule: rev_induct)
  case Nil
  show ?case by (simp add: welford_init_def)
next
  case (snoc p ps)
  define w where "w = foldl welford_step welford_init ps"
  from snoc have ih: "ssqdm_y w = 0"
    "nobs w = 0 \<and> meany w = 0 \<or> 0 < nobs w \<and> meany w = c" by (auto simp: w_def)
  have "ssqdm_y (welford_step w p) = 0
       \<and> (nobs (welford_step w p) = 0 \<and> meany (welford_step w p) = 0
            \<or> 0 < nobs (welford_step w p) \<and> meany (welford_step w p) = c)"
  proof (cases "\<exists>vx vy. p = (Some vx, Some vy)")
    case False
    then have "welford_step w p = w"
      by (cases p) (auto simp: welford_step_def split: option.splits)
    with ih show ?thesis by simp
  next
    case True
    then obtain vx vy where p: "p = (Some vx, Some vy)" by blast
    with snoc.prems have v: "vy = c" by simp
    from ih(2) show ?thesis
    proof
      assume "nobs w = 0 \<and> meany w = 0"
      then show ?thesis using ih(1) unfolding p welford_step_Some by (simp add: v)
    next
      assume "0 < nobs w \<and> meany w = c"
      then show ?thesis using ih(1) unfolding p welford_step_Some by (simp add: v)
    qed
  qed
  then show ?case unfolding foldl_welford_snoc w_def .
qed

lemma constant_col_value:
  assumes "constant_col col"
  shows "\<exists>c. \<forall>e\<in>set col. \<forall>v. e = Some v \<longrightarrow> v = c"
proof (cases "dropna_values col")
  case Nil
  have "\<forall>e\<in>set col. e = None"
  proof
    fix e assume "e \<in> set col"
    show "e = None"
    proof (cases e)
      case (Some v)
      with \<open>e \<in> set col\<close> have "v \<in> set (dropna_values col)"
        by (force simp: dropna_values_def List.map_filter_def)
      with Nil show ?thesis by simp
    qed simp
  qed
  then show ?thesis by auto
next
  case (Cons c cs)
  have "\<forall>e\<in>set col. \<forall>v. e = Some v \<longrightarrow> v = c"
  proof (intro ballI allI impI)
    fix e v assume "e \<in> set col" "e = Some v"
    then have "v \<in> set (dropna_values col)"
      by (force simp: dropna_values_def List.map_filter_def)
    moreover have "c \<in> set (dropna_values col)" using Cons by simp
    ultimately show "v = c" using assms by (simp add: constant_col_def)
  qed
  then show ?thesis ..
qed

lemma nancorr_pair_constant_x:
  assumes "constant_col xs"
  shows "nancorr_pair xs ys = None"
proof -
  from constant_col_value [OF assms] obtain c where c: "\<forall>e\<in>set xs. \<forall>v. e = Some v \<longrightarrow> v = c" ..
  have "\<forall>p\<in>set (zip xs ys). \<forall>v. fst p = Some v \<longrightarrow> v = c"
    using c by (auto dest: set_zip_leftD)
  from welford_const_x [OF this] have "ssqdm_x (foldl welford_step welford_init (zip xs ys)) = 0"
    by simp
  then show ?thesis by (simp add: nancorr_pair_def Let_def)
qed

lemma nancorr_pair_constant_y:
  assumes "constant_col ys"
  shows "nancorr_pair xs ys = None"
proof -
  from constant_col_value [OF assms] obtain c where c: "\<forall>e\<in>set ys. \<forall>v. e = Some v \<longrightarrow> v = c" ..
  have "\<forall>p\<in>set (zip xs ys). \<forall>v. snd p = Some v \<longrightarrow> v = c"
    using c by (auto dest: set_zip_rightD)
  from welford_const_y [OF this] have "ssqdm_y (foldl welford_step welford_init (zip xs ys)) = 0"
    by simp
  then show ?thesis by (simp add: nancorr_pair_def Let_def)
qed

lemma corr_matrix_entry:
  assumes "i < 5" and "j < 5"
  shows "corr_matrix master ! i ! j
           = nancorr_pair (corr_columns master ! max i j) (corr_columns master ! min i j)"
proof -
  have len: "length (corr_columns master) = 5" by (simp add: corr_columns_def)
  show ?thesis unfolding corr_matrix_def nancorr_def len using assms by simp
qed

text \<open>
  Claim C5. The correlation matrix of the five master-table columns is symmetric; its
  diagonal entry is 1 for a column that is not constant; and every entry in the row or the
  column of a constant column is NaN (absent), not 0.
\<close>

theorem corr_matrix_symmetric_unit_diagonal:
  assumes "i < 5" and "j < 5"
  shows "corr_matrix master ! i ! j = corr_matrix master ! j ! i
       \<and> (\<not> constant_col (corr_columns master ! i) \<longrightarrow> corr_matrix master ! i ! i = Some 1)
       \<and> (constant_col (corr_columns master ! i) \<longrightarrow>
            corr_matrix master ! i ! j = None \<and> corr_matrix master ! j ! i = None)"
proof -
  have sym: "corr_matrix master ! i ! j = corr_matrix master ! j ! i"
    unfolding corr_matrix_entry [OF assms] corr_matrix_entry [OF assms(2) assms(1)]
    by (simp add: max.commute min.commute)
  have diag: "corr_matrix master ! i ! i = Some 1" if "\<not> constant_col (corr_columns master ! i)"
    unfolding corr_matrix_entry [OF assms(1) assms(1)] using that
    by (simp add: nancorr_pair_diag)
  have const: "corr_matrix master ! i ! j = None" if c: "constant_col (corr_columns master ! i)"
  proof (cases "i \<le> j")
    case True
    then show ?thesis unfolding corr_matrix_entry [OF assms]
      using c by (simp add: max_def min_def nancorr_pair_constant_y)
  next
    case False
    then show ?thesis unfolding corr_matrix_entry [OF assms]
      using c by (simp add: max_def min_def nancorr_pair_constant_x)
  qed
  from sym diag const show ?thesis by simp
qed


theorem corr_matrix_symmetric_unit_diagonal_witness:
  "(0::nat) < 5 \<and> (1::nat) < 5
   \<and> corr_columns (master_data
       [\<lparr>borough = ''BRONX'', dispatch_response_seconds_qy = 200, incident_response_seconds_qy = None\<rparr>,
        \<lparr>borough = ''QUEENS'', dispatch_response_seconds_qy = 700, incident_response_seconds_qy = None\<rparr>]) ! 0 = [Some 200, Some 700]
   \<and> corr_columns (master_data
       [\<lparr>borough = ''BRONX'', dispatch_response_seconds_qy = 200, incident_response_seconds_qy = None\<rparr>,
        \<lparr>borough = ''QUEENS'', dispatch_response_seconds_qy = 700, incident_response_seconds_qy = None\<rparr>]) ! 1 = [Some 1, Some 1]
   \<and> corr_matrix (master_data
       [\<lparr>borough = ''BRONX'', dispatch_response_seconds_qy = 200, incident_response_seconds_qy = None\<rparr>,
        \<lparr>borough = ''QUEENS'', dispatch_response_seconds_qy = 700, incident_response_seconds_qy = None\<rparr>]) ! 0 ! 0 = Some 1
   \<and> corr_matrix (master_data
       [\<lparr>borough = ''BRONX'', dispatch_response_seconds_qy = 200, incident_response_seconds_qy = None\<rparr>,
        \<lparr>borough = ''QUEENS'', dispatch_response_seconds_qy = 700, incident_response_seconds_qy = None\<rparr>]) ! 0 ! 1 = None
   \<and> corr_matrix (master_data
       [\<lparr>borough = ''BRONX'', dispatch_response_seconds_qy = 200, incident_response_seconds_qy = None\<rparr>,
        \<lparr>borough = ''QUEENS'', dispatch_response_seconds_qy = 700, incident_response_seconds_qy = None\<rparr>]) ! 1 ! 0 = None
   \<and> corr_matrix (master_data
       [\<lparr>borough = ''BRONX'', dispatch_response_seconds_qy = 200, incident_response_seconds_qy = None\<rparr>,
        \<lparr>borough = ''QUEENS'', dispatch_response_seconds_qy = 700, incident_response_seconds_qy = None\<rparr>]) ! 1 ! 1 = None"
proof -
  let ?md = "(master_data
       [\<lparr>borough = ''BRONX'', dispatch_response_seconds_qy = 200, incident_response_seconds_qy = None\<rparr>,
        \<lparr>borough = ''QUEENS'', dispatch_response_seconds_qy = 700, incident_response_seconds_qy = None\<rparr>])"
  have i0: "(0::nat) < 5" and i1: "(1::nat) < 5" by simp_all
  have c0: "corr_columns ?md ! 0 = [Some 200, Some 700]"
    by (simp add: corr_columns_def master_data_def merge_on_borough_def merge_row_def
        borough_stats_def performance_metrics_def groupby_borough_def round_col_def mean_def
        np_round_def round_half_even_def Let_def)
  have c1: "corr_columns ?md ! 1 = [Some 1, Some 1]"
    by (simp add: corr_columns_def float_col_def master_data_def merge_on_borough_def merge_row_def
        borough_stats_def performance_metrics_def groupby_borough_def Let_def)
  have nc: "\<not> constant_col (corr_columns ?md ! 0)"
    unfolding c0 by (simp add: constant_col_def dropna_values_def List.map_filter_simps)
  have cc: "constant_col (corr_columns ?md ! 1)"
    unfolding c1 by (simp add: constant_col_def dropna_values_def List.map_filter_simps)
  from corr_matrix_symmetric_unit_diagonal [OF i0 i0, of ?md] nc
  have d0: "corr_matrix ?md ! 0 ! 0 = Some 1" by simp
  from corr_matrix_symmetric_unit_diagonal [OF i1 i0, of ?md] cc
  have o: "corr_matrix ?md ! 1 ! 0 = None" "corr_matrix ?md ! 0 ! 1 = None" by simp_all
  from corr_matrix_symmetric_unit_diagonal [OF i1 i1, of ?md] cc
  have d1: "corr_matrix ?md ! 1 ! 1 = None" by simp
  show ?thesis
    by (rule conjI [OF i0 conjI [OF i1 conjI [OF c0 conjI [OF c1 conjI [OF d0
          conjI [OF o(2) conjI [OF o(1) d1]]]]]]])
qed


end
